theory Spec2Isabelle
  imports Main "HOL-Library.AList" "HOL-Library.Sublist"
begin

section \<open>WebSocket handles and wire messages\<close>

text \<open>
  The connection manager only uses four things of a \<open>ws\<close> socket: its \<open>readyState\<close>,
  \<open>send\<close>, \<open>ping\<close> and \<open>close\<close>. A socket is a record of what the manager can observe and
  of what it has asked the socket to do. Whether \<open>send\<close> raises is decided by the
  environment and is the field \<open>sendThrows\<close>.
\<close>

datatype ready_state = CONNECTING | OPEN | CLOSING | CLOSED

record websocket =
  readyState :: ready_state
  sendThrows :: bool
  attempts :: "string list"
  delivered :: "string list"
  pings :: nat
  closeCalls :: "(nat option \<times> string option) list"

text \<open>\<open>ws.send(message)\<close>: \<open>Inl\<close> is the raised exception (the socket as it is left),
  \<open>Inr\<close> the normal return.\<close>

definition ws_send :: "string \<Rightarrow> websocket \<Rightarrow> websocket + websocket" where
  "ws_send message w =
     (if sendThrows w then Inl (w\<lparr>attempts := attempts w @ [message]\<rparr>)
      else Inr (w\<lparr>attempts := attempts w @ [message], delivered := delivered w @ [message]\<rparr>))"

definition ws_ping :: "websocket \<Rightarrow> websocket" where
  "ws_ping w = w\<lparr>pings := Suc (pings w)\<rparr>"

definition ws_close :: "nat option \<Rightarrow> string option \<Rightarrow> websocket \<Rightarrow> websocket" where
  "ws_close code reason w =
     w\<lparr>readyState := (if readyState w = OPEN then CLOSING else readyState w),
       closeCalls := closeCalls w @ [(code, reason)]\<rparr>"

text \<open>\<open>types/messages.ts\<close>: the messages the teacher side builds.\<close>

datatype cursor = Cursor (line: nat) (character: nat)

text \<open>
  The \<open>language\<close> field of a file message is what \<open>ContentProvider.getLanguageName\<close>
  returns. The type says \<open>string\<close>; at run time it is a language name, or the member of
  \<open>Object.prototype\<close> that a lookup in the language table finds under a key such as
  \<open>constructor\<close> (see \<open>getLanguageName\<close> below).
\<close>

datatype js_language = LanguageName string | PrototypeMember string

datatype message =
    ConnectedMessage int string "string option"
  | FileUpdateMessage int string string js_language string "cursor option"
  | FileSwitchMessage int string string js_language string "cursor option"
  | StatsMessage int nat
  | ServerClosingMessage int string
  | PongMessage int

text \<open>What \<open>JSON.parse\<close> returns.\<close>

datatype json =
    JNull | JBool bool | JNum int | JStr string
  | JArr "json list" | JObj "(string \<times> json) list"

datatype console_entry = ConsoleError string | ConsoleWarn string | ConsoleLog string

section \<open>ConnectionManager\<close>

record ClientConnection =
  conn_id :: string
  ws :: websocket
  connectedAt :: int
  lastPing :: int
  isAlive :: bool

text \<open>
  The JavaScript \<open>Map\<close> of connections is an association list in insertion order:
  \<open>Map.set\<close> is \<open>AList.update\<close> (replace in place, else append), \<open>Map.delete\<close> is
  \<open>AList.delete\<close>, \<open>Map.get\<close> is \<open>map_of\<close>, and a mutation of a stored connection object
  is \<open>AList.map_entry\<close>. \<open>broadcasts\<close> is the trace of the messages handed to
  \<open>MessageBroker.broadcast\<close>; \<open>closed\<close> the ids whose socket the manager closed.
\<close>

record server =
  connections :: "(string \<times> ClientConnection) list"
  pingTimer :: bool
  timeoutTimer :: bool
  closed :: "string list"
  console :: "console_entry list"
  broadcasts :: "message list"

definition maxConnections :: nat where
  "maxConnections = 50"

definition pingInterval :: int where
  "pingInterval = 30000"

definition timeoutInterval :: int where
  "timeoutInterval = 60000"

text \<open>The constructor: an empty table, and \<open>startHeartbeat\<close> sets both interval timers.\<close>

definition newConnectionManager :: server where
  "newConnectionManager =
     \<lparr>connections = [], pingTimer = True, timeoutTimer = True, closed = [],
      console = [], broadcasts = []\<rparr>"

definition getConnectionCount :: "'a server_scheme \<Rightarrow> nat" where
  "getConnectionCount s = length (connections s)"

text \<open>\<open>clientId\<close> is the value \<open>nanoid()\<close> returns and \<open>now\<close> the value of \<open>Date.now()\<close>.\<close>

definition addConnection ::
  "websocket \<Rightarrow> string \<Rightarrow> int \<Rightarrow> 'a server_scheme \<Rightarrow> string option \<times> 'a server_scheme" where
  "addConnection w clientId now s =
     (if length (connections s) \<ge> maxConnections then (None, s)
      else (Some clientId,
            s\<lparr>connections :=
                AList.update clientId
                  \<lparr>conn_id = clientId, ws = w, connectedAt = now, lastPing = now, isAlive = True\<rparr>
                  (connections s)\<rparr>))"

definition removeConnection :: "string \<Rightarrow> 'a server_scheme \<Rightarrow> bool \<times> 'a server_scheme" where
  "removeConnection clientId s =
     (case map_of (connections s) clientId of
        Some connection \<Rightarrow>
          (True,
           s\<lparr>connections := AList.delete clientId (connections s),
             closed := (if readyState (ws connection) = OPEN then closed s @ [clientId]
                        else closed s)\<rparr>)
      | None \<Rightarrow> (False, s))"

text \<open>The handlers \<open>addConnection\<close> registers on the socket.\<close>

definition onPong :: "string \<Rightarrow> int \<Rightarrow> 'a server_scheme \<Rightarrow> 'a server_scheme" where
  "onPong clientId now s =
     s\<lparr>connections :=
         AList.map_entry clientId (\<lambda>conn. conn\<lparr>isAlive := True, lastPing := now\<rparr>) (connections s)\<rparr>"

definition onClose :: "string \<Rightarrow> 'a server_scheme \<Rightarrow> 'a server_scheme" where
  "onClose clientId s = snd (removeConnection clientId s)"

definition onError :: "string \<Rightarrow> 'a server_scheme \<Rightarrow> 'a server_scheme" where
  "onError clientId s = snd (removeConnection clientId s)"

text \<open>
  \<open>broadcast\<close>: the \<open>forEach\<close> pass over the table, which sends and collects
  \<open>deadConnections\<close>, and then the removals. The pass returns the table with the sockets as
  the sends left them, the dead ids and the console.
\<close>

fun broadcast_pass ::
  "string \<Rightarrow> (string \<times> ClientConnection) list \<Rightarrow> string list \<Rightarrow> console_entry list \<Rightarrow>
   (string \<times> ClientConnection) list \<times> string list \<times> console_entry list" where
  "broadcast_pass message [] deadConnections con = ([], deadConnections, con)"
| "broadcast_pass message ((clientId, conn) # rest) deadConnections con =
     (if readyState (ws conn) = OPEN then
        (case ws_send message (ws conn) of
           Inr w' \<Rightarrow>
             (case broadcast_pass message rest deadConnections con of
                (rest', dead', con') \<Rightarrow> ((clientId, conn\<lparr>ws := w'\<rparr>) # rest', dead', con'))
         | Inl w' \<Rightarrow>
             (case broadcast_pass message rest (deadConnections @ [clientId])
                     (con @ [ConsoleError (''Error sending message to client '' @ clientId @ '':'')]) of
                (rest', dead', con') \<Rightarrow> ((clientId, conn\<lparr>ws := w'\<rparr>) # rest', dead', con')))
      else
        (case broadcast_pass message rest (deadConnections @ [clientId]) con of
           (rest', dead', con') \<Rightarrow> ((clientId, conn) # rest', dead', con')))"

definition removeAll_connections :: "string list \<Rightarrow> 'a server_scheme \<Rightarrow> 'a server_scheme" where
  "removeAll_connections ids s = foldl (\<lambda>s' clientId. snd (removeConnection clientId s')) s ids"

definition broadcast :: "string \<Rightarrow> 'a server_scheme \<Rightarrow> 'a server_scheme" where
  "broadcast message s =
     (case broadcast_pass message (connections s) [] (console s) of
        (conns', deadConnections, con') \<Rightarrow>
          removeAll_connections deadConnections (s\<lparr>connections := conns', console := con'\<rparr>))"

definition sendToClient :: "string \<Rightarrow> string \<Rightarrow> 'a server_scheme \<Rightarrow> bool \<times> 'a server_scheme" where
  "sendToClient clientId message s =
     (case map_of (connections s) clientId of
        Some connection \<Rightarrow>
          (if readyState (ws connection) = OPEN then
             (case ws_send message (ws connection) of
                Inr w' \<Rightarrow>
                  (True,
                   s\<lparr>connections :=
                       AList.map_entry clientId (\<lambda>c. c\<lparr>ws := w'\<rparr>) (connections s)\<rparr>)
              | Inl w' \<Rightarrow>
                  (False,
                   snd (removeConnection clientId
                     (s\<lparr>connections :=
                          AList.map_entry clientId (\<lambda>c. c\<lparr>ws := w'\<rparr>) (connections s),
                        console := console s @
                          [ConsoleError (''Error sending message to client '' @ clientId @ '':'')]\<rparr>))))
           else (False, s))
      | None \<Rightarrow> (False, s))"

definition updatePing :: "string \<Rightarrow> int \<Rightarrow> 'a server_scheme \<Rightarrow> 'a server_scheme" where
  "updatePing clientId now s =
     s\<lparr>connections :=
         AList.map_entry clientId (\<lambda>conn. conn\<lparr>lastPing := now, isAlive := True\<rparr>) (connections s)\<rparr>"

text \<open>
  The two interval callbacks of \<open>startHeartbeat\<close>. Each \<open>forEach\<close> visits the entries that
  were in the table when it started; an iteration removes at most its own entry.
\<close>

definition pingEach :: "string \<times> ClientConnection \<Rightarrow> 'a server_scheme \<Rightarrow> 'a server_scheme" where
  "pingEach e s =
     (case e of (clientId, conn) \<Rightarrow>
        if \<not> isAlive conn then snd (removeConnection (conn_id conn) s)
        else s\<lparr>connections :=
                 AList.map_entry clientId
                   (\<lambda>c. c\<lparr>isAlive := False,
                          ws := (if readyState (ws c) = OPEN then ws_ping (ws c) else ws c)\<rparr>)
                   (connections s)\<rparr>)"

definition pingTick :: "'a server_scheme \<Rightarrow> 'a server_scheme" where
  "pingTick s = foldl (\<lambda>s' e. pingEach e s') s (connections s)"

definition timeoutEach ::
  "int \<Rightarrow> string \<times> ClientConnection \<Rightarrow> 'a server_scheme \<Rightarrow> 'a server_scheme" where
  "timeoutEach now e s =
     (case e of (clientId, conn) \<Rightarrow>
        if now - lastPing conn > timeoutInterval then snd (removeConnection (conn_id conn) s)
        else s)"

definition timeoutTick :: "int \<Rightarrow> 'a server_scheme \<Rightarrow> 'a server_scheme" where
  "timeoutTick now s = foldl (\<lambda>s' e. timeoutEach now e s') s (connections s)"

definition disconnectAll :: "'a server_scheme \<Rightarrow> 'a server_scheme" where
  "disconnectAll s =
     s\<lparr>connections := [],
       closed := closed s @ map fst (filter (\<lambda>(clientId, conn). readyState (ws conn) = OPEN) (connections s)),
       pingTimer := False, timeoutTimer := False\<rparr>"

definition dispose :: "'a server_scheme \<Rightarrow> 'a server_scheme" where
  "dispose s = disconnectAll s"

section \<open>MessageBroker\<close>

text \<open>\<open>JSON.stringify\<close> and \<open>JSON.parse\<close> belong to the JavaScript runtime; the broker takes
  them as parameters. \<open>parse\<close> returns \<open>None\<close> where \<open>JSON.parse\<close> raises a SyntaxError.\<close>

definition MessageBroker_broadcast ::
  "(message \<Rightarrow> string) \<Rightarrow> message \<Rightarrow> 'a server_scheme \<Rightarrow> 'a server_scheme" where
  "MessageBroker_broadcast stringify m s =
     broadcast (stringify m) (s\<lparr>broadcasts := broadcasts s @ [m]\<rparr>)"

definition sendConnected ::
  "(message \<Rightarrow> string) \<Rightarrow> string \<Rightarrow> string \<Rightarrow> string option \<Rightarrow> int \<Rightarrow>
   'a server_scheme \<Rightarrow> 'a server_scheme" where
  "sendConnected stringify clientId sessionId teacherName now s =
     snd (sendToClient clientId (stringify (ConnectedMessage now sessionId teacherName)) s)"

definition broadcastFileUpdate ::
  "(message \<Rightarrow> string) \<Rightarrow> string \<Rightarrow> string \<Rightarrow> js_language \<Rightarrow> string \<Rightarrow> cursor option \<Rightarrow> int \<Rightarrow>
   'a server_scheme \<Rightarrow> 'a server_scheme" where
  "broadcastFileUpdate stringify filePath fileName language content cursorPosition now s =
     MessageBroker_broadcast stringify
       (FileUpdateMessage now filePath fileName language content cursorPosition) s"

definition broadcastFileSwitch ::
  "(message \<Rightarrow> string) \<Rightarrow> string \<Rightarrow> string \<Rightarrow> js_language \<Rightarrow> string \<Rightarrow> cursor option \<Rightarrow> int \<Rightarrow>
   'a server_scheme \<Rightarrow> 'a server_scheme" where
  "broadcastFileSwitch stringify filePath fileName language content cursorPosition now s =
     MessageBroker_broadcast stringify
       (FileSwitchMessage now filePath fileName language content cursorPosition) s"

definition broadcastStats :: "(message \<Rightarrow> string) \<Rightarrow> int \<Rightarrow> 'a server_scheme \<Rightarrow> 'a server_scheme" where
  "broadcastStats stringify now s =
     MessageBroker_broadcast stringify (StatsMessage now (getConnectionCount s)) s"

definition broadcastServerClosing ::
  "(message \<Rightarrow> string) \<Rightarrow> string \<Rightarrow> int \<Rightarrow> 'a server_scheme \<Rightarrow> 'a server_scheme" where
  "broadcastServerClosing stringify reason now s =
     MessageBroker_broadcast stringify (ServerClosingMessage now reason) s"

definition sendPong ::
  "(message \<Rightarrow> string) \<Rightarrow> string \<Rightarrow> int \<Rightarrow> 'a server_scheme \<Rightarrow> 'a server_scheme" where
  "sendPong stringify clientId now s =
     snd (sendToClient clientId (stringify (PongMessage now)) s)"

text \<open>
  \<open>message.type\<close> on a parsed value: reading a property of \<open>null\<close> raises a TypeError
  (\<open>Inl\<close>); a primitive or an array has no such property (\<open>undefined\<close>, here \<open>None\<close>); an
  object gives the field when it has one.
\<close>

datatype js_error = SyntaxError | TypeError

fun message_type :: "json \<Rightarrow> js_error + json option" where
  "message_type JNull = Inl TypeError"
| "message_type (JObj props) = Inr (map_of props ''type'')"
| "message_type _ = Inr None"

text \<open>The body of the \<open>try\<close> block of \<open>handleStudentMessage\<close>.\<close>

definition handleStudentMessage_try ::
  "(message \<Rightarrow> string) \<Rightarrow> (string \<Rightarrow> json option) \<Rightarrow> string \<Rightarrow> string \<Rightarrow> int \<Rightarrow>
   'a server_scheme \<Rightarrow> js_error + 'a server_scheme" where
  "handleStudentMessage_try stringify parse clientId rawMessage now s =
     (case parse rawMessage of
        None \<Rightarrow> Inl SyntaxError
      | Some m \<Rightarrow>
          (case message_type m of
             Inl e \<Rightarrow> Inl e
           | Inr t \<Rightarrow>
               if t = Some (JStr ''ping'') then
                 Inr (sendPong stringify clientId now (updatePing clientId now s))
               else if t = Some (JStr ''auth'') then Inr s
               else Inr (s\<lparr>console := console s @
                             [ConsoleWarn (''Unknown message type from client '' @ clientId @ '':'')]\<rparr>)))"

text \<open>\<open>handleStudentMessage\<close>: the \<open>catch\<close> logs whatever the body raised. The result is a
  sum so that an exception leaving the function would be a value \<open>Inl\<close>.\<close>

definition handleStudentMessage ::
  "(message \<Rightarrow> string) \<Rightarrow> (string \<Rightarrow> json option) \<Rightarrow> string \<Rightarrow> string \<Rightarrow> int \<Rightarrow>
   'a server_scheme \<Rightarrow> js_error + 'a server_scheme" where
  "handleStudentMessage stringify parse clientId rawMessage now s =
     (case handleStudentMessage_try stringify parse clientId rawMessage now s of
        Inr s' \<Rightarrow> Inr s'
      | Inl error \<Rightarrow>
          Inr (s\<lparr>console := console s @
                   [ConsoleError (''Error parsing message from client '' @ clientId @ '':'')]\<rparr>))"

section \<open>WebSocketServer: accepting a connection\<close>

datatype accepted = Rejected websocket | Accepted string

definition handleWebSocketConnection ::
  "(message \<Rightarrow> string) \<Rightarrow> websocket \<Rightarrow> string \<Rightarrow> int \<Rightarrow> string option \<Rightarrow>
   'a server_scheme \<Rightarrow> accepted \<times> 'a server_scheme" where
  "handleWebSocketConnection stringify w newId now sessionConfig s =
     (if getConnectionCount s \<ge> 50 then
        (Rejected (ws_close (Some 1008) (Some ''Maximum connections reached'') w), s)
      else
        (case addConnection w newId now s of
           (None, s') \<Rightarrow>
             (Rejected (ws_close (Some 1008) (Some ''Maximum connections reached'') w), s')
         | (Some clientId, s') \<Rightarrow>
             (Accepted clientId,
              (let s'' = s'\<lparr>console := console s' @ [ConsoleLog (''New client connected: '' @ clientId)]\<rparr>
               in case sessionConfig of
                    Some sessionId \<Rightarrow> sendConnected stringify clientId sessionId None now s''
                  | None \<Rightarrow> s''))))"

section \<open>FileFilter\<close>

text \<open>
  The filter calls four functions that are not part of the repository: \<open>path.normalize\<close>,
  \<open>path.relative\<close> and \<open>path.extname\<close> of Node, and \<open>minimatch\<close> (always with the option
  \<open>dot: true\<close>). \<open>ContentProvider\<close> calls \<open>path.basename\<close>. They are the fields of a
  \<open>platform\<close>, a parameter of every function that uses them.
\<close>

record platform =
  path_normalize :: "string \<Rightarrow> string"
  path_relative :: "string \<Rightarrow> string \<Rightarrow> string"
  path_extname :: "string \<Rightarrow> string"
  path_basename :: "string \<Rightarrow> string"
  minimatch :: "string \<Rightarrow> string \<Rightarrow> bool"

text \<open>
  The settings under \<open>classroomSync.sync\<close>. A field is \<open>None\<close> when the setting has no
  value; \<open>config.get(key, default)\<close> then returns the default. \<open>debounceMs\<close> is any whole
  number, also zero, a negative one or a very large one: the code does not validate it.
\<close>

record sync_config =
  cfg_includePatterns :: "string list option"
  cfg_excludePatterns :: "string list option"
  cfg_maxFileSize :: "nat option"
  cfg_debounceMs :: "int option"

definition config_get :: "'a option \<Rightarrow> 'a \<Rightarrow> 'a" where
  "config_get setting dflt = (case setting of Some v \<Rightarrow> v | None \<Rightarrow> dflt)"

record FileFilter =
  includePatterns :: "string list"
  excludePatterns :: "string list"
  maxFileSize :: nat

definition defaultExcludePatterns :: "string list" where
  "defaultExcludePatterns =
     [''**/.env'', ''**/.env.*'', ''**/node_modules/**'', ''**/.git/**'', ''**/*.key'',
      ''**/*.pem'', ''**/*.p12'', ''**/*.pfx'', ''**/credentials.json'', ''**/.vscode/**'']"

definition loadConfiguration :: "sync_config \<Rightarrow> FileFilter \<Rightarrow> FileFilter" where
  "loadConfiguration config flt =
     flt\<lparr>includePatterns := config_get (cfg_includePatterns config) [],
         excludePatterns := config_get (cfg_excludePatterns config) defaultExcludePatterns,
         maxFileSize := config_get (cfg_maxFileSize config) 1048576\<rparr>"

text \<open>The constructor: the field initialisers, then \<open>loadConfiguration\<close>.\<close>

definition newFileFilter :: "sync_config \<Rightarrow> FileFilter" where
  "newFileFilter config =
     loadConfiguration config \<lparr>includePatterns = [], excludePatterns = [], maxFileSize = 1048576\<rparr>"

definition binaryExtensions :: "string list" where
  "binaryExtensions =
     [''.exe'', ''.dll'', ''.so'', ''.dylib'', ''.bin'',
      ''.png'', ''.jpg'', ''.jpeg'', ''.gif'', ''.bmp'', ''.ico'', ''.svg'',
      ''.pdf'', ''.zip'', ''.tar'', ''.gz'', ''.rar'', ''.7z'',
      ''.mp3'', ''.mp4'', ''.avi'', ''.mov'', ''.wmv'',
      ''.woff'', ''.woff2'', ''.ttf'', ''.eot'',
      ''.db'', ''.sqlite'', ''.sqlite3'']"

text \<open>\<open>toLowerCase\<close> on the letters A to Z; other characters are left as they are.\<close>

definition toLowerChar :: "char \<Rightarrow> char" where
  "toLowerChar c =
     (case map_of (zip ''ABCDEFGHIJKLMNOPQRSTUVWXYZ'' ''abcdefghijklmnopqrstuvwxyz'') c of
        Some l \<Rightarrow> l
      | None \<Rightarrow> c)"

definition toLowerCase :: "string \<Rightarrow> string" where
  "toLowerCase str = map toLowerChar str"

definition isBinaryFile :: "platform \<Rightarrow> string \<Rightarrow> bool" where
  "isBinaryFile P filePath = List.member binaryExtensions (toLowerCase (path_extname P filePath))"

text \<open>\<open>relativePath.replace(/\\/g, '/')\<close>: every backslash becomes a slash.\<close>

definition backslashes_to_slashes :: "string \<Rightarrow> string" where
  "backslashes_to_slashes str = map (\<lambda>c. if c = CHR 0x5C then CHR ''/'' else c) str"

text \<open>
  \<open>shouldSyncFile\<close>. The workspace folder is its \<open>uri.fsPath\<close>, \<open>None\<close> when the argument is
  \<open>undefined\<close>. The method first reloads the configuration, so it also returns the
  filter it leaves behind. \<open>startsWith\<close> is \<open>prefix\<close> on strings; each \<open>for\<close> loop that
  returns at the first match is \<open>list_ex\<close>.
\<close>

definition shouldSyncFile ::
  "platform \<Rightarrow> sync_config \<Rightarrow> FileFilter \<Rightarrow> string \<Rightarrow> string option \<Rightarrow> bool \<times> FileFilter" where
  "shouldSyncFile P config flt filePath workspaceFolder =
     (let flt' = loadConfiguration config flt;
          normalizedPath = path_normalize P filePath
      in if (case workspaceFolder of
               Some folder \<Rightarrow> \<not> prefix (path_normalize P folder) normalizedPath
             | None \<Rightarrow> False)
         then (False, flt')
         else
           (let relativePath =
                  (case workspaceFolder of
                     Some folder \<Rightarrow> path_relative P folder normalizedPath
                   | None \<Rightarrow> normalizedPath);
                patternPath = backslashes_to_slashes relativePath
            in if list_ex (\<lambda>excludePattern. minimatch P patternPath excludePattern)
                    (excludePatterns flt')
               then (False, flt')
               else if includePatterns flt' \<noteq> []
                       \<and> \<not> list_ex (\<lambda>includePattern. minimatch P patternPath includePattern)
                             (includePatterns flt')
               then (False, flt')
               else if isBinaryFile P filePath then (False, flt')
               else (True, flt')))"

definition isFileSizeValid :: "FileFilter \<Rightarrow> nat \<Rightarrow> bool" where
  "isFileSizeValid flt fileSize \<longleftrightarrow> fileSize \<le> maxFileSize flt"

section \<open>ContentProvider\<close>

text \<open>
  What the sync manager reads of a \<open>vscode.TextDocument\<close> and of a \<open>vscode.TextEditor\<close>.
  Both are live objects of the editor: the manager holds references to them (numbers
  here) and reads their current state from the stores \<open>documents\<close> and \<open>editors\<close> below.
  \<open>uri\<close> is \<open>uri.toString()\<close> and \<open>fsPath\<close> is \<open>uri.fsPath\<close>.
\<close>

record TextDocument =
  uri :: string
  fsPath :: string
  fileName :: string
  languageId :: string
  isUntitled :: bool
  isClosed :: bool
  getText :: string

record TextEditor =
  editor_document :: nat
  selection_active :: cursor

record FileInfo =
  info_content :: string
  info_language :: js_language
  info_fileName :: string
  info_filePath :: string

definition languageMap :: "(string \<times> string) list" where
  "languageMap =
     [(''typescript'', ''typescript''), (''javascript'', ''javascript''),
      (''typescriptreact'', ''typescript''), (''javascriptreact'', ''javascript''),
      (''python'', ''python''), (''java'', ''java''), (''csharp'', ''csharp''),
      (''cpp'', ''cpp''), (''c'', ''c''), (''html'', ''html''), (''css'', ''css''),
      (''json'', ''json''), (''markdown'', ''markdown''), (''yaml'', ''yaml''),
      (''xml'', ''xml''), (''shellscript'', ''bash''), (''powershell'', ''powershell''),
      (''sql'', ''sql''), (''go'', ''go''), (''rust'', ''rust''), (''php'', ''php''),
      (''ruby'', ''ruby''), (''swift'', ''swift''), (''kotlin'', ''kotlin''),
      (''dart'', ''dart''), (''vue'', ''vue'')]"

text \<open>
  \<open>languageMap\<close> is an object literal, so \<open>languageMap[languageId]\<close> also finds what the
  object inherits from \<open>Object.prototype\<close>: under these keys the lookup gives a function
  (or, for \<open>__proto__\<close>, the prototype itself), which is truthy.
\<close>

definition objectPrototypeKeys :: "string list" where
  "objectPrototypeKeys =
     [''constructor'', ''__defineGetter__'', ''__defineSetter__'', ''hasOwnProperty'',
      ''__lookupGetter__'', ''__lookupSetter__'', ''isPrototypeOf'', ''propertyIsEnumerable'',
      ''toString'', ''valueOf'', ''__proto__'', ''toLocaleString'']"

text \<open>\<open>languageMap[languageId] || languageId || 'plaintext'\<close>: an own key first, then an
  inherited one; every value of the table is a non-empty string, so truthy.\<close>

definition getLanguageName :: "string \<Rightarrow> js_language" where
  "getLanguageName lid =
     (case map_of languageMap lid of
        Some name \<Rightarrow> LanguageName name
      | None \<Rightarrow>
          if List.member objectPrototypeKeys lid then PrototypeMember lid
          else if lid \<noteq> [] then LanguageName lid
          else LanguageName ''plaintext'')"

text \<open>\<open>getFileContent\<close> returns \<open>null\<close> only from its \<open>catch\<close>; nothing in its body raises on
  a document, so the result is always \<open>Some\<close>.\<close>

definition getFileContent :: "platform \<Rightarrow> TextDocument \<Rightarrow> FileInfo option" where
  "getFileContent P doc =
     Some \<lparr>info_content = getText doc,
           info_language = getLanguageName (languageId doc),
           info_fileName = path_basename P (fileName doc),
           info_filePath = fsPath doc\<rparr>"

section \<open>FileSyncManager\<close>

text \<open>
  The manager's fields (\<open>fileFilter\<close>, \<open>activeEditor\<close>, \<open>currentDocument\<close>, \<open>debounceTimer\<close>)
  and the part of the editor and of the JavaScript runtime it lives in: the stores of
  documents and editors, the settings, \<open>vscode.workspace.getWorkspaceFolder\<close> (from a uri
  to the folder's \<open>fsPath\<close>), the clock in milliseconds, and the timers that are set and
  have neither fired nor been cleared, each with the time it is due. \<open>fired\<close> is the trace
  of the timers whose callback has run. The record extends \<open>server\<close>, the state the
  message broker works on.
\<close>

record sync = server +
  fileFilter :: FileFilter
  activeEditor :: "nat option"
  currentDocument :: "nat option"
  debounceTimer :: "nat option"
  subscribed :: bool
  documents :: "nat \<Rightarrow> TextDocument"
  editors :: "nat \<Rightarrow> TextEditor"
  configuration :: sync_config
  getWorkspaceFolder :: "string \<Rightarrow> string option"
  clock :: nat
  timers :: "(nat \<times> nat) list"
  nextTimer :: nat
  fired :: "nat list"

text \<open>
  Node's \<open>setTimeout(callback, after)\<close>: a delay that is not between 1 and
  \<open>TIMEOUT_MAX\<close> (2147483647, the largest 32-bit signed integer) is replaced by 1
  millisecond. It returns a fresh timer; \<open>clearTimeout\<close> drops a timer if it is still
  set.
\<close>

definition TIMEOUT_MAX :: int where
  "TIMEOUT_MAX = 2147483647"

definition timeout_delay :: "int \<Rightarrow> nat" where
  "timeout_delay after = (if 1 \<le> after \<and> after \<le> TIMEOUT_MAX then nat after else 1)"

definition setTimeout :: "int \<Rightarrow> sync \<Rightarrow> nat \<times> sync" where
  "setTimeout after s =
     (nextTimer s,
      s\<lparr>timers := timers s @ [(nextTimer s, clock s + timeout_delay after)],
        nextTimer := Suc (nextTimer s)\<rparr>)"

definition clearTimeout :: "nat \<Rightarrow> sync \<Rightarrow> sync" where
  "clearTimeout timer s = s\<lparr>timers := filter (\<lambda>(t, due). t \<noteq> timer) (timers s)\<rparr>"

text \<open>The private \<open>shouldSyncFile\<close> of the manager; it leaves the filter reloaded.\<close>

definition FileSyncManager_shouldSyncFile :: "platform \<Rightarrow> nat \<Rightarrow> sync \<Rightarrow> bool \<times> sync" where
  "FileSyncManager_shouldSyncFile P d s =
     (let doc = documents s d
      in if isUntitled doc then (False, s)
         else if isClosed doc then (False, s)
         else
           (let workspaceFolder = getWorkspaceFolder s (uri doc)
            in case shouldSyncFile P (configuration s) (fileFilter s) (fsPath doc) workspaceFolder of
                 (ok, flt') \<Rightarrow>
                   (let s' = s\<lparr>fileFilter := flt'\<rparr>
                    in if \<not> ok then (False, s')
                       else if \<not> isFileSizeValid flt' (length (getText doc)) then (False, s')
                       else (True, s'))))"

definition cursorPosition :: "sync \<Rightarrow> cursor option" where
  "cursorPosition s = map_option (\<lambda>e. selection_active (editors s e)) (activeEditor s)"

definition syncFileSwitch :: "platform \<Rightarrow> (message \<Rightarrow> string) \<Rightarrow> nat \<Rightarrow> sync \<Rightarrow> sync" where
  "syncFileSwitch P stringify d s =
     (case FileSyncManager_shouldSyncFile P d s of
        (False, s') \<Rightarrow> s'
      | (True, s') \<Rightarrow>
          (case getFileContent P (documents s' d) of
             None \<Rightarrow> s'
           | Some fileInfo \<Rightarrow>
               broadcastFileSwitch stringify (info_filePath fileInfo) (info_fileName fileInfo)
                 (info_language fileInfo) (info_content fileInfo) (cursorPosition s') (int (clock s')) s'))"

definition syncFileUpdate :: "platform \<Rightarrow> (message \<Rightarrow> string) \<Rightarrow> nat \<Rightarrow> sync \<Rightarrow> sync" where
  "syncFileUpdate P stringify d s =
     (case FileSyncManager_shouldSyncFile P d s of
        (False, s') \<Rightarrow> s'
      | (True, s') \<Rightarrow>
          (case getFileContent P (documents s' d) of
             None \<Rightarrow> s'
           | Some fileInfo \<Rightarrow>
               broadcastFileUpdate stringify (info_filePath fileInfo) (info_fileName fileInfo)
                 (info_language fileInfo) (info_content fileInfo) (cursorPosition s') (int (clock s')) s'))"

text \<open>\<open>handleEditorChange\<close>; the argument is \<open>None\<close> for \<open>undefined\<close>.\<close>

definition handleEditorChange ::
  "platform \<Rightarrow> (message \<Rightarrow> string) \<Rightarrow> nat option \<Rightarrow> sync \<Rightarrow> sync" where
  "handleEditorChange P stringify editor s =
     (let s0 = s\<lparr>activeEditor := editor\<rparr>
      in case editor of
           None \<Rightarrow> s0
         | Some e \<Rightarrow>
             (let d = editor_document (editors s0 e);
                  s1 = (case debounceTimer s0 of
                          Some timer \<Rightarrow> (clearTimeout timer s0)\<lparr>debounceTimer := None\<rparr>
                        | None \<Rightarrow> s0)
              in if map_option (\<lambda>c. uri (documents s1 c)) (currentDocument s1)
                      \<noteq> Some (uri (documents s1 d))
                 then syncFileSwitch P stringify d (s1\<lparr>currentDocument := Some d\<rparr>)
                 else s1))"

text \<open>\<open>handleDocumentChange\<close>: \<open>d\<close> is \<open>event.document\<close> and \<open>changes\<close> is
  \<open>event.contentChanges.length\<close>.\<close>

definition handleDocumentChange :: "nat \<Rightarrow> nat \<Rightarrow> sync \<Rightarrow> sync" where
  "handleDocumentChange d changes s =
     (case currentDocument s of
        None \<Rightarrow> s
      | Some c \<Rightarrow>
          if uri (documents s d) \<noteq> uri (documents s c) then s
          else if changes = 0 then s
          else
            (let s1 = (case debounceTimer s of Some timer \<Rightarrow> clearTimeout timer s | None \<Rightarrow> s);
                 debounceMs = config_get (cfg_debounceMs (configuration s1)) 500
             in case setTimeout debounceMs s1 of
                  (timer, s2) \<Rightarrow> s2\<lparr>debounceTimer := Some timer\<rparr>))"

text \<open>The callback given to \<open>setTimeout\<close>. With no current document the call
  \<open>syncFileUpdate(undefined)\<close> raises inside the \<open>async\<close> callback and nothing is sent.\<close>

definition debounceCallback :: "platform \<Rightarrow> (message \<Rightarrow> string) \<Rightarrow> sync \<Rightarrow> sync" where
  "debounceCallback P stringify s =
     (case currentDocument s of
        None \<Rightarrow> s
      | Some c \<Rightarrow> syncFileUpdate P stringify c s)"

text \<open>\<open>start\<close> subscribes the listeners and handles the editor that is already active
  (\<open>vscode.window.activeTextEditor\<close>, the argument). Then the configuration listener that
  \<open>start\<close> registers, \<open>syncCurrentFile\<close> and \<open>stop\<close>.\<close>

definition start :: "platform \<Rightarrow> (message \<Rightarrow> string) \<Rightarrow> nat option \<Rightarrow> sync \<Rightarrow> sync" where
  "start P stringify activeTextEditor s =
     (let s1 = s\<lparr>subscribed := True\<rparr>
      in case activeTextEditor of
           Some e \<Rightarrow> handleEditorChange P stringify (Some e) s1
         | None \<Rightarrow> s1)"

definition onConfigurationChanged :: "platform \<Rightarrow> (message \<Rightarrow> string) \<Rightarrow> sync \<Rightarrow> sync" where
  "onConfigurationChanged P stringify s =
     (let s1 = s\<lparr>fileFilter := loadConfiguration (configuration s) (fileFilter s)\<rparr>
      in case currentDocument s1 of
           Some c \<Rightarrow> syncFileSwitch P stringify c s1
         | None \<Rightarrow> s1)"

definition syncCurrentFile :: "platform \<Rightarrow> (message \<Rightarrow> string) \<Rightarrow> sync \<Rightarrow> sync" where
  "syncCurrentFile P stringify s =
     (case currentDocument s of
        Some c \<Rightarrow> syncFileSwitch P stringify c s
      | None \<Rightarrow> s)"

definition stop :: "sync \<Rightarrow> sync" where
  "stop s =
     (let s1 = (case debounceTimer s of
                  Some timer \<Rightarrow> (clearTimeout timer s)\<lparr>debounceTimer := None\<rparr>
                | None \<Rightarrow> s)
      in s1\<lparr>subscribed := False, activeEditor := None, currentDocument := None\<rparr>)"

section \<open>The event loop\<close>

text \<open>
  Time passes between events. When the clock moves to \<open>t\<close>, the timers due by then fire in
  the order of their due times, each at its due time; a timer that fires is no longer
  set. The only callback ever given to \<open>setTimeout\<close> is the debounce callback, which sets
  and clears no timer, so the timers due can be listed before the first one fires.
\<close>

definition fire :: "platform \<Rightarrow> (message \<Rightarrow> string) \<Rightarrow> nat \<times> nat \<Rightarrow> sync \<Rightarrow> sync" where
  "fire P stringify timer s =
     debounceCallback P stringify
       (s\<lparr>timers := filter (\<lambda>(t, due). t \<noteq> fst timer) (timers s),
          clock := max (clock s) (snd timer),
          fired := fired s @ [fst timer]\<rparr>)"

definition advance :: "platform \<Rightarrow> (message \<Rightarrow> string) \<Rightarrow> nat \<Rightarrow> sync \<Rightarrow> sync" where
  "advance P stringify t s =
     (let s' = foldl (\<lambda>s' timer. fire P stringify timer s') s
                 (sort_key snd (filter (\<lambda>(timer, due). due \<le> t) (timers s)))
      in s'\<lparr>clock := max (clock s') t\<rparr>)"

text \<open>
  The events of the editor and the calls of the extension. A listener runs only while
  the manager is subscribed. A document change carries the new text of the document,
  which the editor has already stored when the listener runs, and the number of content
  changes. The last three are changes of the environment the manager does not listen to.
  Each handler runs to its end before the next event: its only \<open>await\<close> is on a promise
  that is already resolved.
\<close>

datatype event =
    ActiveEditorChanged "nat option"
  | DocumentChanged nat string nat
  | ConfigurationChanged sync_config
  | SyncCurrentFile
  | Start "nat option"
  | Stop
  | SelectionMoved nat cursor
  | DocumentClosed nat
  | EditorOpened nat TextEditor

fun dispatch :: "platform \<Rightarrow> (message \<Rightarrow> string) \<Rightarrow> event \<Rightarrow> sync \<Rightarrow> sync" where
  "dispatch P stringify (ActiveEditorChanged editor) s =
     (if subscribed s then handleEditorChange P stringify editor s else s)"
| "dispatch P stringify (DocumentChanged d newText changes) s =
     (let s1 = s\<lparr>documents := (documents s)(d := (documents s d)\<lparr>getText := newText\<rparr>)\<rparr>
      in if subscribed s then handleDocumentChange d changes s1 else s1)"
| "dispatch P stringify (ConfigurationChanged config) s =
     (let s1 = s\<lparr>configuration := config\<rparr>
      in if subscribed s then onConfigurationChanged P stringify s1 else s1)"
| "dispatch P stringify SyncCurrentFile s = syncCurrentFile P stringify s"
| "dispatch P stringify (Start activeTextEditor) s = start P stringify activeTextEditor s"
| "dispatch P stringify Stop s = stop s"
| "dispatch P stringify (SelectionMoved e pos) s =
     s\<lparr>editors := (editors s)(e := (editors s e)\<lparr>selection_active := pos\<rparr>)\<rparr>"
| "dispatch P stringify (DocumentClosed d) s =
     s\<lparr>documents := (documents s)(d := (documents s d)\<lparr>isClosed := True\<rparr>)\<rparr>"
| "dispatch P stringify (EditorOpened e ed) s = s\<lparr>editors := (editors s)(e := ed)\<rparr>"

definition step :: "platform \<Rightarrow> (message \<Rightarrow> string) \<Rightarrow> nat \<times> event \<Rightarrow> sync \<Rightarrow> sync" where
  "step P stringify timed s = dispatch P stringify (snd timed) (advance P stringify (fst timed) s)"

definition run :: "platform \<Rightarrow> (message \<Rightarrow> string) \<Rightarrow> (nat \<times> event) list \<Rightarrow> sync \<Rightarrow> sync" where
  "run P stringify evs s = foldl (\<lambda>s' timed. step P stringify timed s') s evs"

section \<open>A POSIX platform for the examples\<close>

text \<open>
  Node's \<open>path\<close> module in its POSIX flavour and \<open>minimatch\<close> with \<open>dot: true\<close>, written
  after their documented behaviour, to have a concrete \<open>platform\<close> at which the filter can
  be evaluated. The glob model covers patterns made of literal characters, \<open>?\<close>, \<open>*\<close> and
  \<open>**\<close> segments, a leading \<open>!\<close> and a leading \<open>#\<close>; braces, character classes and
  extended globs are outside it.
\<close>

fun split_slash :: "string \<Rightarrow> string list" where
  "split_slash [] = [[]]"
| "split_slash (c # cs) =
     (if c = CHR ''/'' then [] # split_slash cs
      else (case split_slash cs of seg # segs \<Rightarrow> (c # seg) # segs | [] \<Rightarrow> [[c]]))"

fun join_slash :: "string list \<Rightarrow> string" where
  "join_slash [] = []"
| "join_slash [seg] = seg"
| "join_slash (seg # segs) = seg @ CHR ''/'' # join_slash segs"

text \<open>\<open>normalizeString\<close>: \<open>.\<close> segments and empty segments go away, \<open>..\<close> removes the
  segment before it; above the root it is dropped, or kept when the path is relative.
  The stack is kept reversed.\<close>

fun normalize_segments :: "bool \<Rightarrow> string list \<Rightarrow> string list \<Rightarrow> string list" where
  "normalize_segments allowAboveRoot [] stack = rev stack"
| "normalize_segments allowAboveRoot (seg # segs) stack =
     (if seg = [] \<or> seg = ''.'' then normalize_segments allowAboveRoot segs stack
      else if seg = ''..'' then
        (case stack of
           upper # below \<Rightarrow>
             if upper = ''..'' then normalize_segments allowAboveRoot segs (seg # stack)
             else normalize_segments allowAboveRoot segs below
         | [] \<Rightarrow>
             if allowAboveRoot then normalize_segments allowAboveRoot segs [seg]
             else normalize_segments allowAboveRoot segs [])
      else normalize_segments allowAboveRoot segs (seg # stack))"

definition posix_normalize :: "string \<Rightarrow> string" where
  "posix_normalize p =
     (if p = [] then ''.''
      else
        (let isAbsolute = (hd p = CHR ''/'');
             trailingSeparator = (last p = CHR ''/'');
             body = join_slash (normalize_segments (\<not> isAbsolute) (split_slash p) [])
         in if body = [] then (if isAbsolute then ''/'' else if trailingSeparator then ''./'' else ''.'')
            else (if isAbsolute then ''/'' else []) @ body @ (if trailingSeparator then ''/'' else [])))"

text \<open>\<open>path.resolve\<close> of one path against the working directory \<open>cwd\<close> (an absolute path),
  as the list of its segments.\<close>

definition posix_resolve :: "string \<Rightarrow> string \<Rightarrow> string list" where
  "posix_resolve cwd p =
     normalize_segments False (split_slash (if p \<noteq> [] \<and> hd p = CHR ''/'' then p else cwd @ ''/'' @ p)) []"

fun strip_common :: "string list \<Rightarrow> string list \<Rightarrow> string list \<times> string list" where
  "strip_common (a # as) (b # bs) = (if a = b then strip_common as bs else (a # as, b # bs))"
| "strip_common as bs = (as, bs)"

definition posix_relative :: "string \<Rightarrow> string \<Rightarrow> string \<Rightarrow> string" where
  "posix_relative cwd src dst =
     (case strip_common (posix_resolve cwd src) (posix_resolve cwd dst) of
        (fromRest, toRest) \<Rightarrow> join_slash (map (\<lambda>_. ''..'') fromRest @ toRest))"

text \<open>The last segment of a path, trailing slashes ignored.\<close>

definition posix_basename :: "string \<Rightarrow> string" where
  "posix_basename p = (case rev (filter (\<lambda>seg. seg \<noteq> []) (split_slash p)) of [] \<Rightarrow> [] | seg # _ \<Rightarrow> seg)"

text \<open>\<open>path.extname\<close>: from the last dot of the last segment, empty when there is no dot,
  when the only dot is the first character, or for the segment \<open>..\<close>.\<close>

fun from_last_dot :: "string \<Rightarrow> string option" where
  "from_last_dot [] = None"
| "from_last_dot (c # cs) =
     (case from_last_dot cs of
        Some ext \<Rightarrow> Some ext
      | None \<Rightarrow> if c = CHR ''.'' then Some (c # cs) else None)"

definition posix_extname :: "string \<Rightarrow> string" where
  "posix_extname p =
     (let base = posix_basename p
      in if base = [] \<or> base = ''..'' then []
         else (case from_last_dot (tl base) of Some ext \<Rightarrow> ext | None \<Rightarrow> []))"

text \<open>One path segment against one pattern segment. A pattern segment with a wildcard
  matches neither the empty segment nor the segments \<open>.\<close> and \<open>..\<close>, wherever the wildcard
  stands in it.\<close>

fun glob_segment :: "string \<Rightarrow> string \<Rightarrow> bool" where
  "glob_segment [] str = (str = [])"
| "glob_segment (c # pat) str =
     (if c = CHR ''*'' then
        glob_segment pat str \<or> (case str of [] \<Rightarrow> False | _ # str' \<Rightarrow> glob_segment (c # pat) str')
      else
        (case str of
           [] \<Rightarrow> False
         | d # str' \<Rightarrow> (c = CHR ''?'' \<or> c = d) \<and> glob_segment pat str'))"

definition is_magic :: "char \<Rightarrow> bool" where
  "is_magic c \<longleftrightarrow> c = CHR ''*'' \<or> c = CHR ''?''"

definition dot_segment :: "string \<Rightarrow> bool" where
  "dot_segment seg \<longleftrightarrow> seg = ''.'' \<or> seg = ''..''"

definition match_segment :: "string \<Rightarrow> string \<Rightarrow> bool" where
  "match_segment pat seg \<longleftrightarrow>
     glob_segment pat seg
     \<and> (list_ex is_magic pat \<longrightarrow> seg \<noteq> [] \<and> \<not> dot_segment seg)"

text \<open>\<open>matchOne\<close>: the segments of the path against the segments of the pattern. A \<open>**\<close>
  swallows any number of segments other than \<open>.\<close> and \<open>..\<close>.\<close>

fun matchOne :: "string list \<Rightarrow> string list \<Rightarrow> bool"
  and globstar :: "string list \<Rightarrow> string list \<Rightarrow> bool" where
  "matchOne [] [] = True"
| "matchOne (f # file) [] = (file = [] \<and> f = [])"
| "matchOne [] (p # pattern) = False"
| "matchOne (f # file) (p # pattern) =
     (if p = ''**'' then
        (if pattern = [] then list_all (\<lambda>seg. \<not> dot_segment seg) (f # file)
         else globstar (f # file) pattern)
      else match_segment p f \<and> matchOne file pattern)"
| "globstar [] pattern = False"
| "globstar (f # file) pattern =
     (matchOne (f # file) pattern \<or> (\<not> dot_segment f \<and> globstar file pattern))"

text \<open>Splitting at runs of slashes, as \<open>split(/\/+/)\<close> does.\<close>

fun squeeze_slashes :: "string \<Rightarrow> string" where
  "squeeze_slashes (c # d # cs) =
     (if c = CHR ''/'' \<and> d = CHR ''/'' then squeeze_slashes (d # cs) else c # squeeze_slashes (d # cs))"
| "squeeze_slashes cs = cs"

fun strip_negation :: "string \<Rightarrow> bool \<times> string" where
  "strip_negation (c # cs) =
     (if c = CHR ''!'' then (case strip_negation cs of (neg, pat) \<Rightarrow> (\<not> neg, pat)) else (False, c # cs))"
| "strip_negation [] = (False, [])"

definition minimatch_dot :: "string \<Rightarrow> string \<Rightarrow> bool" where
  "minimatch_dot p pattern =
     (if pattern = [] then p = []
      else if hd pattern = CHR ''#'' then False
      else
        (case strip_negation pattern of
           (neg, pat) \<Rightarrow>
             (matchOne (split_slash (squeeze_slashes p)) (split_slash (squeeze_slashes pat))) \<noteq> neg))"

definition posix :: "string \<Rightarrow> platform" where
  "posix cwd =
     \<lparr>path_normalize = posix_normalize,
      path_relative = posix_relative cwd,
      path_extname = posix_extname,
      path_basename = posix_basename,
      minimatch = minimatch_dot\<rparr>"

section \<open>Notions used to state the properties\<close>

text \<open>What the delivery pass of \<open>broadcast\<close> does to one connection, and which connections
  it marks: those whose socket is not open and those whose \<open>send\<close> raised.\<close>

definition sent_to :: "string \<Rightarrow> ClientConnection \<Rightarrow> ClientConnection" where
  "sent_to message conn =
     (if readyState (ws conn) = OPEN
      then conn\<lparr>ws := (case ws_send message (ws conn) of Inl w' \<Rightarrow> w' | Inr w' \<Rightarrow> w')\<rparr>
      else conn)"

definition is_dead :: "ClientConnection \<Rightarrow> bool" where
  "is_dead conn \<longleftrightarrow> readyState (ws conn) \<noteq> OPEN \<or> sendThrows (ws conn)"

text \<open>The operations on a connection manager, to speak of every sequence of them: its
  methods, the handlers it registers on a socket, the two heartbeat callbacks, the
  acceptance of a connection and the dispatch of an inbound message.\<close>

datatype manager_op =
    Add websocket string int
  | Remove string
  | Pong string int
  | Close string
  | Error string
  | Broadcast string
  | SendTo string string
  | UpdatePing string int
  | PingTick
  | TimeoutTick int
  | DisconnectAll
  | Dispose
  | Accept websocket string int "string option"
  | Inbound string string int

fun apply_op ::
  "(message \<Rightarrow> string) \<Rightarrow> (string \<Rightarrow> json option) \<Rightarrow> manager_op \<Rightarrow>
   'a server_scheme \<Rightarrow> 'a server_scheme" where
  "apply_op stringify parse (Add w clientId now) s = snd (addConnection w clientId now s)"
| "apply_op stringify parse (Remove clientId) s = snd (removeConnection clientId s)"
| "apply_op stringify parse (Pong clientId now) s = onPong clientId now s"
| "apply_op stringify parse (Close clientId) s = onClose clientId s"
| "apply_op stringify parse (Error clientId) s = onError clientId s"
| "apply_op stringify parse (Broadcast message) s = broadcast message s"
| "apply_op stringify parse (SendTo clientId message) s = snd (sendToClient clientId message s)"
| "apply_op stringify parse (UpdatePing clientId now) s = updatePing clientId now s"
| "apply_op stringify parse PingTick s = pingTick s"
| "apply_op stringify parse (TimeoutTick now) s = timeoutTick now s"
| "apply_op stringify parse DisconnectAll s = disconnectAll s"
| "apply_op stringify parse Dispose s = dispose s"
| "apply_op stringify parse (Accept w clientId now sessionConfig) s =
     snd (handleWebSocketConnection stringify w clientId now sessionConfig s)"
| "apply_op stringify parse (Inbound clientId rawMessage now) s =
     (case handleStudentMessage stringify parse clientId rawMessage now s of
        Inr s' \<Rightarrow> s'
      | Inl error \<Rightarrow> s)"

definition run_ops ::
  "(message \<Rightarrow> string) \<Rightarrow> (string \<Rightarrow> json option) \<Rightarrow> manager_op list \<Rightarrow>
   'a server_scheme \<Rightarrow> 'a server_scheme" where
  "run_ops stringify parse ops s = foldl (\<lambda>s' op. apply_op stringify parse op s') s ops"

text \<open>A table at capacity and a socket that has just connected.\<close>

definition full_table :: server where
  "full_table =
     newConnectionManager
       \<lparr>connections :=
          map (\<lambda>n. (replicate (Suc n) CHR ''v'',
                    \<lparr>conn_id = replicate (Suc n) CHR ''v'',
                     ws = \<lparr>readyState = OPEN, sendThrows = False, attempts = [], delivered = [],
                           pings = 0, closeCalls = []\<rparr>,
                     connectedAt = 0, lastPing = 0, isAlive = True\<rparr>)) [0..<50]\<rparr>"

definition fresh_socket :: websocket where
  "fresh_socket = \<lparr>readyState = OPEN, sendThrows = False, attempts = [], delivered = [],
                   pings = 0, closeCalls = []\<rparr>"

text \<open>Example sockets, connections and a table of three viewers: the first raises on
  \<open>send\<close>, the second is closed, the third is healthy. \<open>parse_fragment\<close> is \<open>JSON.parse\<close> on
  the two texts \<open>42\<close> and \<open>null\<close>; it raises on every other text used here.\<close>

definition mk_socket :: "ready_state \<Rightarrow> bool \<Rightarrow> websocket" where
  "mk_socket st throws =
     \<lparr>readyState = st, sendThrows = throws, attempts = [], delivered = [], pings = 0, closeCalls = []\<rparr>"

definition mk_conn :: "string \<Rightarrow> websocket \<Rightarrow> ClientConnection" where
  "mk_conn clientId w = \<lparr>conn_id = clientId, ws = w, connectedAt = 0, lastPing = 0, isAlive = True\<rparr>"

definition three_viewers :: server where
  "three_viewers =
     newConnectionManager
       \<lparr>connections :=
          [(''a'', mk_conn ''a'' (mk_socket OPEN True)),
           (''b'', mk_conn ''b'' (mk_socket CLOSED False)),
           (''c'', mk_conn ''c'' (mk_socket OPEN False))]\<rparr>"

definition parse_fragment :: "string \<Rightarrow> json option" where
  "parse_fragment = [''42'' \<mapsto> JNum 42, ''null'' \<mapsto> JNull]"

text \<open>The path the patterns are matched against; lying within a root, segment by segment, on
  resolved paths; and two configurations: nothing set, and the exclude list set to the
  empty list.\<close>

definition patternPath :: "platform \<Rightarrow> string \<Rightarrow> string option \<Rightarrow> string" where
  "patternPath P filePath workspaceFolder =
     backslashes_to_slashes
       (case workspaceFolder of
          Some root \<Rightarrow> path_relative P root (path_normalize P filePath)
        | None \<Rightarrow> path_normalize P filePath)"

definition lies_within :: "string \<Rightarrow> string \<Rightarrow> string \<Rightarrow> bool" where
  "lies_within cwd root p \<longleftrightarrow> prefix (posix_resolve cwd root) (posix_resolve cwd p)"

definition no_settings :: sync_config where
  "no_settings =
     \<lparr>cfg_includePatterns = None, cfg_excludePatterns = None, cfg_maxFileSize = None,
      cfg_debounceMs = None\<rparr>"

definition empty_excludes :: sync_config where
  "empty_excludes = no_settings\<lparr>cfg_excludePatterns := Some []\<rparr>"

text \<open>Two documents of the workspace \<open>/ws\<close>.\<close>

definition a_ts :: TextDocument where
  "a_ts = \<lparr>uri = ''file:///ws/a.ts'', fsPath = ''/ws/a.ts'', fileName = ''/ws/a.ts'',
           languageId = ''typescript'', isUntitled = False, isClosed = False, getText = ''a''\<rparr>"

definition b_ts :: TextDocument where
  "b_ts = \<lparr>uri = ''file:///ws/b.ts'', fsPath = ''/ws/b.ts'', fileName = ''/ws/b.ts'',
           languageId = ''typescript'', isUntitled = False, isClosed = False, getText = ''b''\<rparr>"

text \<open>Documents 0 (a.ts) and 1 (b.ts); editors 0 and 1 show a.ts, editor 2 shows b.ts.
  The manager tracks a.ts through editor 0.\<close>

definition tracking :: sync where
  "tracking =
     \<lparr>connections = [], pingTimer = True, timeoutTimer = True, closed = [], console = [],
      broadcasts = [],
      fileFilter = newFileFilter no_settings,
      activeEditor = Some 0, currentDocument = Some 0, debounceTimer = None, subscribed = True,
      documents = (\<lambda>d. if d = 0 then a_ts else b_ts),
      editors = (\<lambda>e. \<lparr>editor_document = (if e = 2 then 1 else 0), selection_active = Cursor 0 0\<rparr>),
      configuration = no_settings,
      getWorkspaceFolder = (\<lambda>u. Some ''/ws''),
      clock = 0, timers = [], nextTimer = 0, fired = []\<rparr>"

text \<open>The same with an edit of a.ts pending: timer 0, due at 500.\<close>

definition editing :: sync where
  "editing = tracking\<lparr>debounceTimer := Some 0, timers := [(0, 500)], nextTimer := 1\<rparr>"

text \<open>The message a debounce callback broadcasts for the document \<open>d\<close>.\<close>

definition update_of :: "platform \<Rightarrow> nat \<Rightarrow> sync \<Rightarrow> message" where
  "update_of P d s =
     FileUpdateMessage (int (clock s)) (fsPath (documents s d))
       (path_basename P (fileName (documents s d))) (getLanguageName (languageId (documents s d)))
       (getText (documents s d)) (cursorPosition s)"

definition switch_of :: "platform \<Rightarrow> nat \<Rightarrow> sync \<Rightarrow> message" where
  "switch_of P d s =
     FileSwitchMessage (int (clock s)) (fsPath (documents s d))
       (path_basename P (fileName (documents s d))) (getLanguageName (languageId (documents s d)))
       (getText (documents s d)) (cursorPosition s)"

text \<open>A timer that is not set and was issued before: it can never be set again.\<close>

definition spent :: "nat \<Rightarrow> sync \<Rightarrow> bool" where
  "spent timer s \<longleftrightarrow> timer \<notin> fst ` set (timers s) \<and> timer < nextTimer s"

text \<open>Such a timer, whose callback has run \<open>n\<close> times so far.\<close>

definition never_again :: "nat \<Rightarrow> nat \<Rightarrow> sync \<Rightarrow> bool" where
  "never_again timer n s \<longleftrightarrow> spent timer s \<and> count_list (fired s) timer = n"

text \<open>The delay the debounce timer really gets: the \<open>debounceMs\<close> that
  \<open>handleDocumentChange\<close> reads from the settings (500 when unset), as \<open>setTimeout\<close> takes
  it. It is \<open>debounceMs\<close> itself when that lies between 1 and \<open>TIMEOUT_MAX\<close>, and 1
  millisecond otherwise.\<close>

definition debounce_window :: "sync \<Rightarrow> nat" where
  "debounce_window s = timeout_delay (config_get (cfg_debounceMs (configuration s)) 500)"

text \<open>The state \<open>tracking\<close> with \<open>debounceMs\<close> set to 3000000000, which is above
  \<open>TIMEOUT_MAX\<close>.\<close>

definition huge_delay :: sync where
  "huge_delay = tracking\<lparr>configuration := no_settings\<lparr>cfg_debounceMs := Some 3000000000\<rparr>\<rparr>"

text \<open>
  A burst is a list of content changes of one document: the time of each, the text of
  the document after it and the number of content changes it carries. It is \<open>spaced\<close>
  within \<open>ms\<close> when each change comes less than \<open>ms\<close> after the one before it.
\<close>

fun spaced :: "nat \<Rightarrow> (nat \<times> string \<times> nat) list \<Rightarrow> bool" where
  "spaced ms (e1 # e2 # es) \<longleftrightarrow> fst e1 \<le> fst e2 \<and> fst e2 < fst e1 + ms \<and> spaced ms (e2 # es)"
| "spaced ms es \<longleftrightarrow> True"

definition burst_events :: "nat \<Rightarrow> (nat \<times> string \<times> nat) list \<Rightarrow> (nat \<times> event) list" where
  "burst_events c burst = map (\<lambda>(t, newText, changes). (t, DocumentChanged c newText changes)) burst"

text \<open>At time \<open>t\<close> the only timer set, if any, is the one the manager holds, and it is not due
  yet.\<close>

definition only_debounce_pending :: "nat \<Rightarrow> sync \<Rightarrow> bool" where
  "only_debounce_pending t s \<longleftrightarrow>
     list_all (\<lambda>(timer, due). debounceTimer s = Some timer \<and> t < due) (timers s)"

text \<open>A tracked document the default exclude patterns deny, and the burst of the scenario
  of the specification: three edits at 0, 100 and 300 milliseconds.\<close>

definition dot_env :: TextDocument where
  "dot_env = \<lparr>uri = ''file:///ws/.env'', fsPath = ''/ws/.env'', fileName = ''/ws/.env'',
           languageId = ''plaintext'', isUntitled = False, isClosed = False, getText = ''KEY=0''\<rparr>"

definition tracking_secret :: sync where
  "tracking_secret = tracking\<lparr>documents := (\<lambda>d. dot_env)\<rparr>"

definition three_edits :: "(nat \<times> string \<times> nat) list" where
  "three_edits = [(0, ''ab'', 1), (100, ''abc'', 1), (300, ''abcd'', 1)]"

text \<open>Every timer that is set, and the timer the manager holds, was issued by \<open>setTimeout\<close>:
  it is below the next timer to be issued.\<close>

definition timers_issued :: "sync \<Rightarrow> bool" where
  "timers_issued s \<longleftrightarrow>
     list_all (\<lambda>(t, due). t < nextTimer s) (timers s)
     \<and> (case debounceTimer s of Some t \<Rightarrow> t < nextTimer s | None \<Rightarrow> True)"

section \<open>The connection table\<close>

lemma length_map_entry [simp]: "length (AList.map_entry k f xs) = length xs"
  by (induction xs) auto

lemma map_fst_map_entry [simp]: "map fst (AList.map_entry k f xs) = map fst xs"
  by (induction xs) auto

lemma length_update_le: "length (AList.update k v xs) \<le> Suc (length xs)"
  by (induction xs) auto

lemma removeConnection_connections:
  "connections (snd (removeConnection clientId s)) = AList.delete clientId (connections s)"
proof (cases "map_of (connections s) clientId")
  case None
  then have "clientId \<notin> fst ` set (connections s)"
    by (simp add: map_of_eq_None_iff)
  then show ?thesis using None by (simp add: removeConnection_def)
next
  case (Some c)
  then show ?thesis by (simp add: removeConnection_def)
qed

lemma removeConnection_length:
  "length (connections (snd (removeConnection clientId s))) \<le> length (connections s)"
  by (simp add: removeConnection_connections length_delete_le)

lemma removeAll_connections_connections:
  "connections (removeAll_connections ids s) =
     filter (\<lambda>e. fst e \<notin> set ids) (connections s)"
proof (induction ids arbitrary: s)
  case Nil
  show ?case by (simp add: removeAll_connections_def)
next
  case (Cons a ids)
  have "removeAll_connections (a # ids) s = removeAll_connections ids (snd (removeConnection a s))"
    by (simp add: removeAll_connections_def)
  then show ?case
    by (simp add: Cons.IH removeConnection_connections AList.delete_eq conj_commute
        cong: filter_cong) (rule filter_cong, auto)
qed

lemma broadcast_pass_fst:
  "fst (broadcast_pass message xs dead con) = map (\<lambda>e. (fst e, sent_to message (snd e))) xs"
  by (induction message xs dead con rule: broadcast_pass.induct)
     (auto simp: sent_to_def split: sum.splits prod.splits)

lemma broadcast_pass_dead:
  "fst (snd (broadcast_pass message xs dead con)) =
     dead @ map fst (filter (\<lambda>e. is_dead (snd e)) xs)"
  by (induction message xs dead con rule: broadcast_pass.induct)
     (auto simp: is_dead_def ws_send_def split: sum.splits prod.splits if_splits)

lemma broadcast_connections:
  "connections (broadcast message s) =
     filter (\<lambda>e. fst e \<notin> fst ` {e \<in> set (connections s). is_dead (snd e)})
       (map (\<lambda>e. (fst e, sent_to message (snd e))) (connections s))"
proof -
  obtain conns' dead con' where p: "broadcast_pass message (connections s) [] (console s) = (conns', dead, con')"
    by (cases "broadcast_pass message (connections s) [] (console s)") auto
  have c: "conns' = map (\<lambda>e. (fst e, sent_to message (snd e))) (connections s)"
    using broadcast_pass_fst [of message "connections s" "[]" "console s"] p by simp
  have d: "dead = map fst (filter (\<lambda>e. is_dead (snd e)) (connections s))"
    using broadcast_pass_dead [of message "connections s" "[]" "console s"] p by simp
  have "set dead = fst ` {e \<in> set (connections s). is_dead (snd e)}"
    unfolding d by auto
  then show ?thesis
    by (simp add: broadcast_def p removeAll_connections_connections c)
qed

lemma broadcast_length: "length (connections (broadcast message s)) \<le> length (connections s)"
  unfolding broadcast_connections
  by (rule order_trans [OF length_filter_le]) simp

lemma addConnection_length:
  "length (connections s) \<le> 50 \<Longrightarrow> length (connections (snd (addConnection w clientId now s))) \<le> 50"
proof (cases "length (connections s) \<ge> 50")
  case True
  assume "length (connections s) \<le> 50"
  then show ?thesis using True by (simp add: addConnection_def maxConnections_def)
next
  case False
  let ?c = "\<lparr>conn_id = clientId, ws = w, connectedAt = now, lastPing = now, isAlive = True\<rparr>"
  have "length (AList.update clientId ?c (connections s)) \<le> Suc (length (connections s))"
    by (rule length_update_le)
  with False show ?thesis by (simp add: addConnection_def maxConnections_def)
qed

lemma sendToClient_length:
  "length (connections (snd (sendToClient clientId message s))) \<le> length (connections s)"
  by (auto simp: sendToClient_def removeConnection_connections
      intro: order_trans [OF length_delete_le] split: option.splits sum.splits)

lemma pingEach_length: "length (connections (pingEach e s)) \<le> length (connections s)"
  by (cases e) (simp add: pingEach_def removeConnection_length)

lemma timeoutEach_length: "length (connections (timeoutEach now e s)) \<le> length (connections s)"
  by (cases e) (simp add: timeoutEach_def removeConnection_length)

lemma foldl_length_le:
  assumes "\<And>e s. length (connections (f s e)) \<le> length (connections s)"
  shows "length (connections (foldl f s es)) \<le> length (connections s)"
proof (induction es arbitrary: s)
  case Nil
  show ?case by simp
next
  case (Cons e es)
  have "length (connections (foldl f (f s e) es)) \<le> length (connections (f s e))"
    by (rule Cons.IH)
  also have "\<dots> \<le> length (connections s)" by (rule assms)
  finally show ?case by simp
qed

lemma pingTick_length: "length (connections (pingTick s)) \<le> length (connections s)"
  unfolding pingTick_def by (rule foldl_length_le) (rule pingEach_length)

lemma timeoutTick_length: "length (connections (timeoutTick now s)) \<le> length (connections s)"
  unfolding timeoutTick_def by (rule foldl_length_le) (rule timeoutEach_length)

lemma handleWebSocketConnection_length:
  assumes "length (connections s) \<le> 50"
  shows "length (connections (snd (handleWebSocketConnection stringify w clientId now sc s))) \<le> 50"
proof (cases "getConnectionCount s \<ge> 50")
  case True
  then show ?thesis using assms by (simp add: handleWebSocketConnection_def)
next
  case False
  have a: "length (connections (snd (addConnection w clientId now s))) \<le> 50"
    by (rule addConnection_length [OF assms])
  show ?thesis
  proof (cases "addConnection w clientId now s")
    case (Pair r s')
    with a have s': "length (connections s') \<le> 50" by simp
    show ?thesis
    proof (cases r)
      case None
      then show ?thesis using False Pair s' by (simp add: handleWebSocketConnection_def)
    next
      case (Some cid)
      have "length (connections (snd (sendToClient cid m t))) \<le> length (connections t)" for m and t :: "'a server_scheme"
        by (rule sendToClient_length)
      from this [of _ "s'\<lparr>console := console s' @ [ConsoleLog (''New client connected: '' @ cid)]\<rparr>"]
      show ?thesis using False Pair s' Some
        by (auto simp: handleWebSocketConnection_def sendConnected_def Let_def split: option.splits
            intro: order_trans)
    qed
  qed
qed

lemma handleStudentMessage_length:
  "handleStudentMessage stringify parse clientId rawMessage now s = Inr s' \<Longrightarrow>
     length (connections s') \<le> length (connections s)"
proof -
  have "length (connections (sendPong stringify clientId now (updatePing clientId now s)))
      \<le> length (connections s)"
    using sendToClient_length [of clientId _ "updatePing clientId now s"]
    by (simp add: sendPong_def updatePing_def)
  then show "handleStudentMessage stringify parse clientId rawMessage now s = Inr s' \<Longrightarrow>
     length (connections s') \<le> length (connections s)"
    by (auto simp: handleStudentMessage_def handleStudentMessage_try_def
        split: sum.splits option.splits if_splits)
qed

lemma apply_op_length:
  "length (connections s) \<le> 50 \<Longrightarrow> length (connections (apply_op stringify parse op s)) \<le> 50"
proof (cases op)
  case (Add w c n)
  assume "length (connections s) \<le> 50"
  then show ?thesis using Add by (simp add: addConnection_length)
next
  case (Accept w c n sc)
  assume "length (connections s) \<le> 50"
  then show ?thesis using Accept by (simp add: handleWebSocketConnection_length)
next
  case (Inbound c raw n)
  assume a: "length (connections s) \<le> 50"
  show ?thesis
  proof (cases "handleStudentMessage stringify parse c raw n s")
    case (Inl e)
    then show ?thesis using a Inbound by simp
  next
    case (Inr s')
    from handleStudentMessage_length [OF Inr] a show ?thesis using Inbound Inr by simp
  qed
qed (auto simp: onPong_def onClose_def onError_def updatePing_def disconnectAll_def dispose_def
      intro: order_trans [OF removeConnection_length] order_trans [OF broadcast_length]
        order_trans [OF sendToClient_length] order_trans [OF pingTick_length]
        order_trans [OF timeoutTick_length])

lemma run_ops_length:
  "length (connections s) \<le> 50 \<Longrightarrow> length (connections (run_ops stringify parse ops s)) \<le> 50"
  unfolding run_ops_def
  by (induction ops arbitrary: s) (simp_all add: apply_op_length)

text \<open>
  Claim C1. The table never holds more than 50 entries. An \<open>addConnection\<close> on a table of
  at least 50 entries returns no id and leaves the state as it was; every operation keeps
  a table of at most 50 entries at most that large, so every sequence of operations from
  the constructor does; and \<open>handleWebSocketConnection\<close> on a full table closes the new
  socket with code 1008 without calling \<open>addConnection\<close>, the state unchanged.
\<close>

theorem capacity_never_exceeded:
  "(50 \<le> length (connections s) \<longrightarrow> addConnection w clientId now s = (None, s))
   \<and> (length (connections s) \<le> 50 \<longrightarrow> length (connections (apply_op stringify parse op s)) \<le> 50)
   \<and> length (connections (run_ops stringify parse ops newConnectionManager)) \<le> 50
   \<and> (50 \<le> getConnectionCount s \<longrightarrow>
        handleWebSocketConnection stringify w clientId now sessionConfig s =
          (Rejected (ws_close (Some 1008) (Some ''Maximum connections reached'') w), s))"
proof -
  have "length (connections newConnectionManager) \<le> 50"
    by (simp add: newConnectionManager_def)
  then have "length (connections (run_ops stringify parse ops newConnectionManager)) \<le> 50"
    by (rule run_ops_length)
  then show ?thesis
    by (simp add: addConnection_def maxConnections_def apply_op_length handleWebSocketConnection_def)
qed

theorem capacity_never_exceeded_witness:
  "50 \<le> length (connections full_table)
   \<and> addConnection fresh_socket ''late'' 7 full_table = (None, full_table)
   \<and> length (connections (apply_op (\<lambda>m. ''m'') parse_fragment (Add fresh_socket ''late'' 7) full_table)) \<le> 50
   \<and> handleWebSocketConnection (\<lambda>m. ''m'') fresh_socket ''late'' 7 (Some ''session'') full_table =
        (Rejected (ws_close (Some 1008) (Some ''Maximum connections reached'') fresh_socket), full_table)"
proof -
  have l: "length (connections full_table) = 50"
    by (simp add: full_table_def)
  show ?thesis
    using capacity_never_exceeded [where s = full_table and w = fresh_socket
        and clientId = "''late''" and now = 7 and stringify = "\<lambda>m. ''m''"
        and parse = parse_fragment and op = "Add fresh_socket ''late'' 7" and ops = "[]"
        and sessionConfig = "Some ''session''"] l
    by (simp add: getConnectionCount_def)
qed

section \<open>Broadcast, unicast and dispatch\<close>

lemma sent_to_open:
  "readyState (ws conn) = OPEN \<Longrightarrow>
     attempts (ws (sent_to message conn)) = attempts (ws conn) @ [message]
     \<and> (\<not> sendThrows (ws conn) \<longrightarrow>
          delivered (ws (sent_to message conn)) = delivered (ws conn) @ [message])"
  by (simp add: sent_to_def ws_send_def)

lemma sent_to_not_open: "readyState (ws conn) \<noteq> OPEN \<Longrightarrow> sent_to message conn = conn"
  by (simp add: sent_to_def)

lemma broadcast_unfold:
  "broadcast message s =
     removeAll_connections (fst (snd (broadcast_pass message (connections s) [] (console s))))
       (s\<lparr>connections := fst (broadcast_pass message (connections s) [] (console s)),
          console := snd (snd (broadcast_pass message (connections s) [] (console s)))\<rparr>)"
  by (simp add: broadcast_def split: prod.splits)

lemma map_fst_filter_keys:
  "map fst (filter (\<lambda>e. fst e \<notin> set ks) xs) = filter (\<lambda>k. k \<notin> set ks) (map fst xs)"
  by (induction xs) auto

text \<open>
  Claim C2. In a call of \<open>broadcast\<close> the delivery pass leaves the keys of the table and
  their order as they were, so nothing is removed while it runs. Every connection whose
  socket is open at the start gets exactly one \<open>send\<close> of the payload (live is read as:
  in the table with an open socket), and the payload is delivered when that \<open>send\<close> does
  not raise, whatever the other sockets do. A connection whose socket is not open is left
  as it is. The ids marked are those of the connections not open or whose \<open>send\<close> raised;
  the table that \<open>broadcast\<close> returns is the table after the whole pass without the marked
  ids.
\<close>

theorem broadcast_delivers_then_removes:
  "map fst (fst (broadcast_pass message (connections s) [] (console s))) = map fst (connections s)
   \<and> (\<forall>i < length (connections s).
         (readyState (ws (snd (connections s ! i))) = OPEN \<longrightarrow>
            attempts (ws (snd (fst (broadcast_pass message (connections s) [] (console s)) ! i))) =
              attempts (ws (snd (connections s ! i))) @ [message]
            \<and> (\<not> sendThrows (ws (snd (connections s ! i))) \<longrightarrow>
                 delivered (ws (snd (fst (broadcast_pass message (connections s) [] (console s)) ! i))) =
                   delivered (ws (snd (connections s ! i))) @ [message]))
         \<and> (readyState (ws (snd (connections s ! i))) \<noteq> OPEN \<longrightarrow>
              fst (broadcast_pass message (connections s) [] (console s)) ! i = connections s ! i))
   \<and> fst (snd (broadcast_pass message (connections s) [] (console s))) =
       map fst (filter (\<lambda>e. readyState (ws (snd e)) \<noteq> OPEN \<or> sendThrows (ws (snd e))) (connections s))
   \<and> broadcast message s =
       removeAll_connections (fst (snd (broadcast_pass message (connections s) [] (console s))))
         (s\<lparr>connections := fst (broadcast_pass message (connections s) [] (console s)),
            console := snd (snd (broadcast_pass message (connections s) [] (console s)))\<rparr>)
   \<and> connections (broadcast message s) =
       filter (\<lambda>e. fst e \<notin> set (fst (snd (broadcast_pass message (connections s) [] (console s)))))
         (fst (broadcast_pass message (connections s) [] (console s)))"
proof -
  let ?p = "broadcast_pass message (connections s) [] (console s)"
  have f: "fst ?p = map (\<lambda>e. (fst e, sent_to message (snd e))) (connections s)"
    by (rule broadcast_pass_fst)
  have d: "fst (snd ?p) = map fst (filter (\<lambda>e. is_dead (snd e)) (connections s))"
    by (simp add: broadcast_pass_dead)
  have 1: "map fst (fst ?p) = map fst (connections s)"
    by (simp add: f comp_def)
  have 2: "readyState (ws (snd (connections s ! i))) = OPEN \<longrightarrow>
            attempts (ws (snd (fst ?p ! i))) = attempts (ws (snd (connections s ! i))) @ [message]
            \<and> (\<not> sendThrows (ws (snd (connections s ! i))) \<longrightarrow>
                 delivered (ws (snd (fst ?p ! i))) = delivered (ws (snd (connections s ! i))) @ [message])"
    if "i < length (connections s)" for i
    using that by (simp add: f sent_to_open)
  have 3: "readyState (ws (snd (connections s ! i))) \<noteq> OPEN \<longrightarrow> fst ?p ! i = connections s ! i"
    if "i < length (connections s)" for i
    using that by (simp add: f sent_to_not_open)
  have 4: "fst (snd ?p) =
       map fst (filter (\<lambda>e. readyState (ws (snd e)) \<noteq> OPEN \<or> sendThrows (ws (snd e))) (connections s))"
    by (simp add: d is_dead_def)
  have 5: "connections (broadcast message s) = filter (\<lambda>e. fst e \<notin> set (fst (snd ?p))) (fst ?p)"
    by (simp add: broadcast_unfold removeAll_connections_connections)
  from 1 2 3 4 5 broadcast_unfold [of message s] show ?thesis by blast
qed

theorem broadcast_delivers_then_removes_witness:
  "0 < length (connections three_viewers)
   \<and> readyState (ws (snd (connections three_viewers ! 0))) = OPEN
   \<and> sendThrows (ws (snd (connections three_viewers ! 0)))
   \<and> attempts (ws (snd (fst (broadcast_pass ''m'' (connections three_viewers) []
          (console three_viewers)) ! 0))) = [''m'']
   \<and> map fst (fst (broadcast_pass ''m'' (connections three_viewers) [] (console three_viewers))) =
       [''a'', ''b'', ''c'']
   \<and> fst (snd (broadcast_pass ''m'' (connections three_viewers) [] (console three_viewers))) =
       [''a'', ''b'']
   \<and> map fst (connections (broadcast ''m'' three_viewers)) = [''c'']"
proof -
  note t = broadcast_delivers_then_removes [of "''m''" three_viewers]
  have l: "0 < length (connections three_viewers)"
    by (simp add: three_viewers_def)
  have c: "connections three_viewers ! 0 = (''a'', mk_conn ''a'' (mk_socket OPEN True))"
    by (simp add: three_viewers_def)
  have opn: "readyState (ws (snd (connections three_viewers ! 0))) = OPEN"
    and thr: "sendThrows (ws (snd (connections three_viewers ! 0)))"
    and att: "attempts (ws (snd (connections three_viewers ! 0))) = []"
    by (simp_all add: c mk_conn_def mk_socket_def)
  from t l opn have "attempts (ws (snd (fst (broadcast_pass ''m'' (connections three_viewers) []
          (console three_viewers)) ! 0))) = attempts (ws (snd (connections three_viewers ! 0))) @ [''m'']"
    by blast
  then have 1: "attempts (ws (snd (fst (broadcast_pass ''m'' (connections three_viewers) []
          (console three_viewers)) ! 0))) = [''m'']"
    by (simp add: att)
  from t have "map fst (fst (broadcast_pass ''m'' (connections three_viewers) [] (console three_viewers))) =
       map fst (connections three_viewers)"
    by blast
  then have 2: "map fst (fst (broadcast_pass ''m'' (connections three_viewers) [] (console three_viewers))) =
       [''a'', ''b'', ''c'']"
    by (simp add: three_viewers_def)
  from t have "fst (snd (broadcast_pass ''m'' (connections three_viewers) [] (console three_viewers))) =
       map fst (filter (\<lambda>e. readyState (ws (snd e)) \<noteq> OPEN \<or> sendThrows (ws (snd e)))
         (connections three_viewers))"
    by blast
  then have 3: "fst (snd (broadcast_pass ''m'' (connections three_viewers) [] (console three_viewers))) =
       [''a'', ''b'']"
    by (simp add: three_viewers_def mk_conn_def mk_socket_def)
  from t have "connections (broadcast ''m'' three_viewers) =
       filter (\<lambda>e. fst e \<notin> set (fst (snd (broadcast_pass ''m'' (connections three_viewers) []
           (console three_viewers)))))
         (fst (broadcast_pass ''m'' (connections three_viewers) [] (console three_viewers)))"
    by blast
  then have "map fst (connections (broadcast ''m'' three_viewers)) =
       filter (\<lambda>k. k \<notin> set (fst (snd (broadcast_pass ''m'' (connections three_viewers) []
           (console three_viewers)))))
         (map fst (fst (broadcast_pass ''m'' (connections three_viewers) [] (console three_viewers))))"
    by (simp only: map_fst_filter_keys)
  then have 4: "map fst (connections (broadcast ''m'' three_viewers)) = [''c'']"
    unfolding 2 3 by simp
  from l opn thr 1 2 3 4 show ?thesis by blast
qed

text \<open>
  Claim C10. In a call of \<open>broadcast\<close> a connection whose socket is not open is not sent the
  payload (the pass leaves its entry as it is) and its id is not in the table afterwards.
  Every entry that remains comes from an entry with an open socket whose \<open>send\<close> did not
  raise, and differs from it by the one payload sent and delivered.
\<close>

theorem broadcast_drops_sockets_not_open:
  "(\<forall>e \<in> set (connections s). readyState (ws (snd e)) \<noteq> OPEN \<longrightarrow>
       fst e \<notin> fst ` set (connections (broadcast message s))
       \<and> e \<in> set (fst (broadcast_pass message (connections s) [] (console s))))
   \<and> (\<forall>e' \<in> set (connections (broadcast message s)).
        \<exists>e \<in> set (connections s).
          fst e' = fst e \<and> readyState (ws (snd e)) = OPEN \<and> \<not> sendThrows (ws (snd e))
          \<and> snd e' = (snd e)\<lparr>ws := (ws (snd e))\<lparr>attempts := attempts (ws (snd e)) @ [message],
                                                  delivered := delivered (ws (snd e)) @ [message]\<rparr>\<rparr>)"
proof (intro conjI ballI impI)
  fix e assume e: "e \<in> set (connections s)" and n: "readyState (ws (snd e)) \<noteq> OPEN"
  then have "is_dead (snd e)" by (simp add: is_dead_def)
  with e show "fst e \<notin> fst ` set (connections (broadcast message s))"
    by (auto simp: broadcast_connections)
  have "(fst e, sent_to message (snd e)) = e"
    using n by (simp add: sent_to_not_open)
  with e show "e \<in> set (fst (broadcast_pass message (connections s) [] (console s)))"
    by (force simp: broadcast_pass_fst)
next
  fix e' assume "e' \<in> set (connections (broadcast message s))"
  then obtain e where e: "e \<in> set (connections s)" and e': "e' = (fst e, sent_to message (snd e))"
    and nd: "fst e \<notin> fst ` {x \<in> set (connections s). is_dead (snd x)}"
    by (auto simp: broadcast_connections)
  from e nd have "\<not> is_dead (snd e)" by auto
  then have o: "readyState (ws (snd e)) = OPEN" and t: "\<not> sendThrows (ws (snd e))"
    by (simp_all add: is_dead_def)
  have "snd e' = (snd e)\<lparr>ws := (ws (snd e))\<lparr>attempts := attempts (ws (snd e)) @ [message],
                                                  delivered := delivered (ws (snd e)) @ [message]\<rparr>\<rparr>"
    using o t by (simp add: e' sent_to_def ws_send_def)
  with e e' o t show "\<exists>e \<in> set (connections s).
          fst e' = fst e \<and> readyState (ws (snd e)) = OPEN \<and> \<not> sendThrows (ws (snd e))
          \<and> snd e' = (snd e)\<lparr>ws := (ws (snd e))\<lparr>attempts := attempts (ws (snd e)) @ [message],
                                                  delivered := delivered (ws (snd e)) @ [message]\<rparr>\<rparr>"
    by auto
qed

theorem broadcast_drops_sockets_not_open_witness:
  "(''b'', mk_conn ''b'' (mk_socket CLOSED False)) \<in> set (connections three_viewers)
   \<and> readyState (ws (mk_conn ''b'' (mk_socket CLOSED False))) \<noteq> OPEN
   \<and> ''b'' \<notin> fst ` set (connections (broadcast ''m'' three_viewers))
   \<and> (''b'', mk_conn ''b'' (mk_socket CLOSED False))
        \<in> set (fst (broadcast_pass ''m'' (connections three_viewers) [] (console three_viewers)))
   \<and> (''c'', mk_conn ''c'' ((mk_socket OPEN False)\<lparr>attempts := [''m''], delivered := [''m'']\<rparr>))
        \<in> set (connections (broadcast ''m'' three_viewers))
   \<and> (\<exists>e \<in> set (connections three_viewers).
         ''c'' = fst e \<and> readyState (ws (snd e)) = OPEN \<and> \<not> sendThrows (ws (snd e)))"
proof -
  note t = broadcast_drops_sockets_not_open [of three_viewers "''m''"]
  have b: "(''b'', mk_conn ''b'' (mk_socket CLOSED False)) \<in> set (connections three_viewers)"
    by (simp add: three_viewers_def)
  have c: "readyState (ws (mk_conn ''b'' (mk_socket CLOSED False))) \<noteq> OPEN"
    by (simp add: mk_conn_def mk_socket_def)
  from t b c have 1: "''b'' \<notin> fst ` set (connections (broadcast ''m'' three_viewers))"
    and 2: "(''b'', mk_conn ''b'' (mk_socket CLOSED False))
        \<in> set (fst (broadcast_pass ''m'' (connections three_viewers) [] (console three_viewers)))"
    by force+
  have r: "connections (broadcast ''m'' three_viewers) =
      [(''c'', mk_conn ''c'' ((mk_socket OPEN False)\<lparr>attempts := [''m''], delivered := [''m'']\<rparr>))]"
    by (simp add: broadcast_unfold removeAll_connections_connections broadcast_pass_fst
        broadcast_pass_dead three_viewers_def is_dead_def sent_to_def ws_send_def
        mk_conn_def mk_socket_def)
  then have 3: "(''c'', mk_conn ''c'' ((mk_socket OPEN False)\<lparr>attempts := [''m''], delivered := [''m'']\<rparr>))
        \<in> set (connections (broadcast ''m'' three_viewers))"
    by simp
  from t 3 have 4: "\<exists>e \<in> set (connections three_viewers).
         ''c'' = fst e \<and> readyState (ws (snd e)) = OPEN \<and> \<not> sendThrows (ws (snd e))"
    by force
  from b c 1 2 3 4 show ?thesis by blast
qed

lemma delete_map_entry_same: "AList.delete k (AList.map_entry k f xs) = AList.delete k xs"
  by (induction xs) (auto simp: AList.delete_eq)

lemma map_of_map_entry_same:
  "map_of xs k = Some v \<Longrightarrow> map_of (AList.map_entry k f xs) k = Some (f v)"
  by (simp add: map_of_map_entry)

text \<open>
  Claim C8, as amended. For an id in the table: when the socket is open and \<open>send\<close> raises,
  \<open>sendToClient\<close> returns false and the connection is removed; when the socket is open and
  \<open>send\<close> returns, it returns true and the table keeps its keys, the socket having the
  payload; when the socket is not open, no \<open>send\<close> is made, it returns false and the state
  is unchanged, the connection still in the table.
\<close>

theorem sendToClient_outcomes:
  assumes "map_of (connections s) clientId = Some c"
  shows "(readyState (ws c) = OPEN \<and> sendThrows (ws c) \<longrightarrow>
            \<not> fst (sendToClient clientId message s)
            \<and> clientId \<notin> fst ` set (connections (snd (sendToClient clientId message s)))
            \<and> connections (snd (sendToClient clientId message s)) =
                AList.delete clientId (connections s))
       \<and> (readyState (ws c) = OPEN \<and> \<not> sendThrows (ws c) \<longrightarrow>
            fst (sendToClient clientId message s)
            \<and> snd (sendToClient clientId message s) =
                s\<lparr>connections :=
                    AList.map_entry clientId
                      (\<lambda>conn. conn\<lparr>ws := (ws c)\<lparr>attempts := attempts (ws c) @ [message],
                                                delivered := delivered (ws c) @ [message]\<rparr>\<rparr>)
                      (connections s)\<rparr>
            \<and> map fst (connections (snd (sendToClient clientId message s))) =
                map fst (connections s))
       \<and> (readyState (ws c) \<noteq> OPEN \<longrightarrow> sendToClient clientId message s = (False, s))"
proof (intro conjI impI)
  assume a: "readyState (ws c) = OPEN \<and> sendThrows (ws c)"
  let ?t = "s\<lparr>connections :=
                 AList.map_entry clientId (\<lambda>conn. conn\<lparr>ws := (ws c)\<lparr>attempts := attempts (ws c) @ [message]\<rparr>\<rparr>)
                   (connections s),
               console := console s @
                 [ConsoleError (''Error sending message to client '' @ clientId @ '':'')]\<rparr>"
  have r: "sendToClient clientId message s = (False, snd (removeConnection clientId ?t))"
    using assms a by (simp add: sendToClient_def ws_send_def)
  show "\<not> fst (sendToClient clientId message s)"
    by (simp add: r)
  show d: "connections (snd (sendToClient clientId message s)) = AList.delete clientId (connections s)"
    by (simp add: r removeConnection_connections delete_map_entry_same)
  show "clientId \<notin> fst ` set (connections (snd (sendToClient clientId message s)))"
    unfolding d by (rule delete_notin_dom)
next
  assume a: "readyState (ws c) = OPEN \<and> \<not> sendThrows (ws c)"
  show "fst (sendToClient clientId message s)"
    using assms a by (simp add: sendToClient_def ws_send_def)
  show e: "snd (sendToClient clientId message s) =
                s\<lparr>connections :=
                    AList.map_entry clientId
                      (\<lambda>conn. conn\<lparr>ws := (ws c)\<lparr>attempts := attempts (ws c) @ [message],
                                                delivered := delivered (ws c) @ [message]\<rparr>\<rparr>)
                      (connections s)\<rparr>"
    using assms a by (simp add: sendToClient_def ws_send_def)
  show "map fst (connections (snd (sendToClient clientId message s))) = map fst (connections s)"
    unfolding e by simp
next
  assume "readyState (ws c) \<noteq> OPEN"
  then show "sendToClient clientId message s = (False, s)"
    using assms by (simp add: sendToClient_def)
qed

theorem sendToClient_outcomes_witness:
  "map_of (connections three_viewers) ''a'' = Some (mk_conn ''a'' (mk_socket OPEN True))
   \<and> \<not> fst (sendToClient ''a'' ''m'' three_viewers)
   \<and> map fst (connections (snd (sendToClient ''a'' ''m'' three_viewers))) = [''b'', ''c'']
   \<and> map_of (connections three_viewers) ''c'' = Some (mk_conn ''c'' (mk_socket OPEN False))
   \<and> fst (sendToClient ''c'' ''m'' three_viewers)
   \<and> map fst (connections (snd (sendToClient ''c'' ''m'' three_viewers))) = [''a'', ''b'', ''c'']
   \<and> map_of (connections three_viewers) ''b'' = Some (mk_conn ''b'' (mk_socket CLOSED False))
   \<and> sendToClient ''b'' ''m'' three_viewers = (False, three_viewers)"
proof -
  have a: "map_of (connections three_viewers) ''a'' = Some (mk_conn ''a'' (mk_socket OPEN True))"
    and b: "map_of (connections three_viewers) ''b'' = Some (mk_conn ''b'' (mk_socket CLOSED False))"
    and c: "map_of (connections three_viewers) ''c'' = Some (mk_conn ''c'' (mk_socket OPEN False))"
    by (simp_all add: three_viewers_def)
  have k: "map fst (connections three_viewers) = [''a'', ''b'', ''c'']"
    by (simp add: three_viewers_def)
  have d: "map fst (AList.delete ''a'' (connections three_viewers)) = [''b'', ''c'']"
    by (simp add: three_viewers_def)
  from sendToClient_outcomes [OF a, of "''m''"]
  have 1: "\<not> fst (sendToClient ''a'' ''m'' three_viewers)"
    and 2: "map fst (connections (snd (sendToClient ''a'' ''m'' three_viewers))) = [''b'', ''c'']"
    by (simp_all add: mk_conn_def mk_socket_def d)
  from sendToClient_outcomes [OF c, of "''m''"]
  have 3: "fst (sendToClient ''c'' ''m'' three_viewers)"
    and 4: "map fst (connections (snd (sendToClient ''c'' ''m'' three_viewers))) = [''a'', ''b'', ''c'']"
    by (simp_all add: mk_conn_def mk_socket_def k)
  from sendToClient_outcomes [OF b, of "''m''"]
  have 5: "sendToClient ''b'' ''m'' three_viewers = (False, three_viewers)"
    by (simp add: mk_conn_def mk_socket_def)
  from a b c 1 2 3 4 5 show ?thesis by blast
qed

text \<open>
  Claim C8 as stated fails: a unicast to a connection in the table whose socket is closed
  fails (returns false) and the connection stays in the table.
\<close>

theorem sendToClient_failure_removes_counterexample:
  "''b'' \<in> fst ` set (connections three_viewers)
   \<and> \<not> (\<not> fst (sendToClient ''b'' ''m'' three_viewers) \<longrightarrow>
          ''b'' \<notin> fst ` set (connections (snd (sendToClient ''b'' ''m'' three_viewers))))"
  by (simp add: sendToClient_def three_viewers_def mk_conn_def mk_socket_def)

text \<open>
  Claim C9. \<open>handleStudentMessage\<close> always returns normally. When \<open>JSON.parse\<close> raises, or
  reading \<open>type\<close> of the parsed value raises (the value \<open>null\<close>), the only change is one
  error line on the console: the table, and so the connection, is as before and no socket
  is closed. When the value parses and its \<open>type\<close> is neither \<open>ping\<close> nor \<open>auth\<close> (or is
  missing), the only change is one warning line on the console. A message of type \<open>auth\<close>
  changes nothing at all.
\<close>

theorem dispatch_never_raises:
  "(\<exists>s'. handleStudentMessage stringify parse clientId rawMessage now s = Inr s')
   \<and> (parse rawMessage = None \<or> (\<exists>m. parse rawMessage = Some m \<and> message_type m = Inl TypeError) \<longrightarrow>
        handleStudentMessage stringify parse clientId rawMessage now s =
          Inr (s\<lparr>console := console s @
                   [ConsoleError (''Error parsing message from client '' @ clientId @ '':'')]\<rparr>))
   \<and> (\<forall>m t. parse rawMessage = Some m \<and> message_type m = Inr t
          \<and> t \<noteq> Some (JStr ''ping'') \<and> t \<noteq> Some (JStr ''auth'') \<longrightarrow>
        handleStudentMessage stringify parse clientId rawMessage now s =
          Inr (s\<lparr>console := console s @
                   [ConsoleWarn (''Unknown message type from client '' @ clientId @ '':'')]\<rparr>))
   \<and> (\<forall>m. parse rawMessage = Some m \<and> message_type m = Inr (Some (JStr ''auth'')) \<longrightarrow>
        handleStudentMessage stringify parse clientId rawMessage now s = Inr s)"
proof (intro conjI allI impI)
  show "\<exists>s'. handleStudentMessage stringify parse clientId rawMessage now s = Inr s'"
    by (simp add: handleStudentMessage_def split: sum.splits)
next
  assume "parse rawMessage = None \<or> (\<exists>m. parse rawMessage = Some m \<and> message_type m = Inl TypeError)"
  then have "\<exists>e. handleStudentMessage_try stringify parse clientId rawMessage now s = Inl e"
    by (auto simp: handleStudentMessage_try_def)
  then show "handleStudentMessage stringify parse clientId rawMessage now s =
          Inr (s\<lparr>console := console s @
                   [ConsoleError (''Error parsing message from client '' @ clientId @ '':'')]\<rparr>)"
    by (auto simp: handleStudentMessage_def)
next
  fix m t
  assume "parse rawMessage = Some m \<and> message_type m = Inr t
          \<and> t \<noteq> Some (JStr ''ping'') \<and> t \<noteq> Some (JStr ''auth'')"
  then show "handleStudentMessage stringify parse clientId rawMessage now s =
          Inr (s\<lparr>console := console s @
                   [ConsoleWarn (''Unknown message type from client '' @ clientId @ '':'')]\<rparr>)"
    by (simp add: handleStudentMessage_def handleStudentMessage_try_def)
next
  fix m
  assume "parse rawMessage = Some m \<and> message_type m = Inr (Some (JStr ''auth''))"
  then show "handleStudentMessage stringify parse clientId rawMessage now s = Inr s"
    by (simp add: handleStudentMessage_def handleStudentMessage_try_def)
qed

theorem dispatch_never_raises_witness:
  "parse_fragment ''{'' = None
   \<and> handleStudentMessage (\<lambda>m. ''pong'') parse_fragment ''a'' ''{'' 5 three_viewers =
       Inr (three_viewers\<lparr>console := [ConsoleError ''Error parsing message from client a:'']\<rparr>)
   \<and> parse_fragment ''42'' = Some (JNum 42) \<and> message_type (JNum 42) = Inr None
   \<and> handleStudentMessage (\<lambda>m. ''pong'') parse_fragment ''a'' ''42'' 5 three_viewers =
       Inr (three_viewers\<lparr>console := [ConsoleWarn ''Unknown message type from client a:'']\<rparr>)"
proof -
  have c: "console three_viewers = []"
    by (simp add: three_viewers_def newConnectionManager_def)
  have n: "parse_fragment ''{'' = None"
    by (simp add: parse_fragment_def)
  have p: "parse_fragment ''42'' = Some (JNum 42) \<and> message_type (JNum 42) = Inr None
      \<and> None \<noteq> Some (JStr ''ping'') \<and> None \<noteq> Some (JStr ''auth'')"
    by (simp add: parse_fragment_def)
  from dispatch_never_raises [of "\<lambda>m. ''pong''" parse_fragment "''a''" "''{''" 5 three_viewers] n
  have 1: "handleStudentMessage (\<lambda>m. ''pong'') parse_fragment ''a'' ''{'' 5 three_viewers =
       Inr (three_viewers\<lparr>console := [ConsoleError ''Error parsing message from client a:'']\<rparr>)"
    by (simp add: c)
  from dispatch_never_raises [of "\<lambda>m. ''pong''" parse_fragment "''a''" "''42''" 5 three_viewers] p
  have 2: "handleStudentMessage (\<lambda>m. ''pong'') parse_fragment ''a'' ''42'' 5 three_viewers =
       Inr (three_viewers\<lparr>console := [ConsoleWarn ''Unknown message type from client a:'']\<rparr>)"
    by (simp add: c)
  from n p 1 2 show ?thesis by blast
qed

section \<open>The file filter\<close>

lemma exclusion_wins:
  assumes "list_ex (minimatch P (patternPath P filePath workspaceFolder))
             (excludePatterns (loadConfiguration config flt))"
  shows "fst (shouldSyncFile P config flt filePath workspaceFolder) = False"
  using assms by (simp add: shouldSyncFile_def Let_def patternPath_def)

lemma exclusion_wins_over_any_include:
  assumes "list_ex (minimatch P (patternPath P filePath workspaceFolder)) excl"
  shows "fst (shouldSyncFile P (config\<lparr>cfg_includePatterns := incl, cfg_excludePatterns := Some excl\<rparr>)
                flt filePath workspaceFolder) = False"
  by (rule exclusion_wins) (simp add: loadConfiguration_def config_get_def assms)

lemma not_prefixed_by_root_denied:
  assumes "\<not> prefix (path_normalize P root) (path_normalize P filePath)"
  shows "fst (shouldSyncFile P config flt filePath (Some root)) = False"
  using assms by (simp add: shouldSyncFile_def Let_def)

text \<open>A pattern segment with a \<open>*\<close> or a \<open>?\<close> matches neither \<open>.\<close> nor \<open>..\<close> nor the empty
  segment, wherever the magic character stands; a literal segment matches itself.\<close>

lemma magic_segment_never_matches_dots:
  "\<not> match_segment ''.*'' ''.'' \<and> \<not> match_segment ''.*'' ''..''
   \<and> \<not> match_segment ''*'' [] \<and> match_segment ''.*'' ''.env''
   \<and> match_segment ''..'' ''..'' \<and> \<not> minimatch_dot ''../a'' ''.*/a''"
  by (simp add: match_segment_def is_magic_def dot_segment_def minimatch_dot_def)

lemma extname_ts: "posix_extname ''/ws-other/a.ts'' = ''.ts''"
  by (simp add: posix_extname_def posix_basename_def)

text \<open>
  Claim C5. Its first half holds (\<open>exclusion_wins\<close>, \<open>exclusion_wins_over_any_include\<close>),
  and a path whose normalised form does not start with the normalised workspace path is
  denied (\<open>not_prefixed_by_root_denied\<close>). Its second half fails: the boundary test is a
  test on the characters of the two paths, so a path in a sibling directory whose name
  starts with the name of the root passes it. With the workspace \<open>/ws\<close> and no settings at
  all, the file \<open>/ws-other/a.ts\<close> does not lie within the root and is accepted for sync.
\<close>

theorem sibling_of_root_is_synced:
  "\<not> lies_within ''/'' ''/ws'' ''/ws-other/a.ts''
   \<and> fst (shouldSyncFile (posix ''/'') no_settings (newFileFilter no_settings)
            ''/ws-other/a.ts'' (Some ''/ws'')) = True"
proof -
  have 1: "\<not> lies_within ''/'' ''/ws'' ''/ws-other/a.ts''"
    by (simp add: lies_within_def posix_resolve_def)
  have n: "posix_normalize ''/ws-other/a.ts'' = ''/ws-other/a.ts''" "posix_normalize ''/ws'' = ''/ws''"
    by (simp_all add: posix_normalize_def)
  have r: "posix_relative ''/'' ''/ws'' ''/ws-other/a.ts'' = ''../ws-other/a.ts''"
    by (simp add: posix_relative_def posix_resolve_def)
  have b: "backslashes_to_slashes ''../ws-other/a.ts'' = ''../ws-other/a.ts''"
    by (simp add: backslashes_to_slashes_def)
  have m: "\<not> list_ex (minimatch_dot ''../ws-other/a.ts'') defaultExcludePatterns"
    by (simp add: defaultExcludePatterns_def minimatch_dot_def match_segment_def dot_segment_def
        is_magic_def)
  have x: "\<not> isBinaryFile (posix ''/'') ''/ws-other/a.ts''"
    by (simp add: isBinaryFile_def posix_def extname_ts toLowerCase_def toLowerChar_def
        binaryExtensions_def)
  have l: "loadConfiguration no_settings (newFileFilter no_settings) =
      \<lparr>includePatterns = [], excludePatterns = defaultExcludePatterns, maxFileSize = 1048576\<rparr>"
    by (simp add: loadConfiguration_def newFileFilter_def no_settings_def config_get_def)
  have "fst (shouldSyncFile (posix ''/'') no_settings (newFileFilter no_settings)
            ''/ws-other/a.ts'' (Some ''/ws'')) = True"
    using x m by (simp add: shouldSyncFile_def l posix_def n r b)
  with 1 show ?thesis by simp
qed

lemma dot_env_paths:
  "posix_normalize ''/ws/.env'' = ''/ws/.env''" "posix_normalize ''/ws'' = ''/ws''"
  "posix_relative ''/'' ''/ws'' ''/ws/.env'' = ''.env''"
  "posix_extname ''/ws/.env'' = []"
  by (simp_all add: posix_normalize_def posix_relative_def posix_resolve_def posix_extname_def
      posix_basename_def)

lemma dot_env_patternPath: "patternPath (posix ''/'') ''/ws/.env'' (Some ''/ws'') = ''.env''"
  by (simp add: patternPath_def posix_def dot_env_paths backslashes_to_slashes_def)

lemma dot_env_default_excluded: "list_ex (minimatch_dot ''.env'') defaultExcludePatterns"
  by (simp add: defaultExcludePatterns_def minimatch_dot_def match_segment_def dot_segment_def
      is_magic_def)

text \<open>
  Claim C6, as amended. The exclude patterns in effect are the list the caller configured
  when there is one, and the default list only when there is none. With no configured
  list, every path that matches a default pattern is denied.
\<close>

theorem caller_excludes_replace_defaults:
  "excludePatterns (loadConfiguration config flt) =
     (case cfg_excludePatterns config of Some caller \<Rightarrow> caller | None \<Rightarrow> defaultExcludePatterns)
   \<and> (cfg_excludePatterns config = None
        \<and> list_ex (minimatch P (patternPath P filePath workspaceFolder)) defaultExcludePatterns \<longrightarrow>
        fst (shouldSyncFile P config flt filePath workspaceFolder) = False)"
proof (intro conjI impI)
  show e: "excludePatterns (loadConfiguration config flt) =
     (case cfg_excludePatterns config of Some caller \<Rightarrow> caller | None \<Rightarrow> defaultExcludePatterns)"
    by (simp add: loadConfiguration_def config_get_def)
  assume "cfg_excludePatterns config = None
        \<and> list_ex (minimatch P (patternPath P filePath workspaceFolder)) defaultExcludePatterns"
  then have "list_ex (minimatch P (patternPath P filePath workspaceFolder))
             (excludePatterns (loadConfiguration config flt))"
    by (simp add: e)
  then show "fst (shouldSyncFile P config flt filePath workspaceFolder) = False"
    by (rule exclusion_wins)
qed

theorem caller_excludes_replace_defaults_witness:
  "cfg_excludePatterns no_settings = None
   \<and> list_ex (minimatch (posix ''/'') (patternPath (posix ''/'') ''/ws/.env'' (Some ''/ws'')))
        defaultExcludePatterns
   \<and> fst (shouldSyncFile (posix ''/'') no_settings (newFileFilter no_settings) ''/ws/.env''
        (Some ''/ws'')) = False
   \<and> excludePatterns (loadConfiguration empty_excludes (newFileFilter no_settings)) = []"
proof -
  have 1: "cfg_excludePatterns no_settings = None"
    by (simp add: no_settings_def)
  have 2: "list_ex (minimatch (posix ''/'') (patternPath (posix ''/'') ''/ws/.env'' (Some ''/ws'')))
        defaultExcludePatterns"
    unfolding dot_env_patternPath using dot_env_default_excluded by (simp add: posix_def)
  have 3: "cfg_excludePatterns empty_excludes = Some []"
    by (simp add: empty_excludes_def)
  from caller_excludes_replace_defaults [of no_settings "newFileFilter no_settings" "posix ''/''"
      "''/ws/.env''" "Some ''/ws''"] 1 2
  have 4: "fst (shouldSyncFile (posix ''/'') no_settings (newFileFilter no_settings) ''/ws/.env''
        (Some ''/ws'')) = False"
    by blast
  from caller_excludes_replace_defaults [of empty_excludes "newFileFilter no_settings"] 3
  have 5: "excludePatterns (loadConfiguration empty_excludes (newFileFilter no_settings)) = []"
    by simp
  from 1 2 4 5 show ?thesis by blast
qed

text \<open>
  Claim C6 as stated fails: with the exclude list configured as the empty list, the file
  \<open>.env\<close> at the workspace root, which the default pattern \<open>**/.env\<close> matches, is accepted.
\<close>

theorem empty_exclude_list_lets_secrets_through_counterexample:
  "list_ex (minimatch (posix ''/'') (patternPath (posix ''/'') ''/ws/.env'' (Some ''/ws'')))
        defaultExcludePatterns
   \<and> fst (shouldSyncFile (posix ''/'') empty_excludes (newFileFilter empty_excludes) ''/ws/.env''
        (Some ''/ws'')) = True"
proof -
  have 2: "list_ex (minimatch (posix ''/'') (patternPath (posix ''/'') ''/ws/.env'' (Some ''/ws'')))
        defaultExcludePatterns"
    unfolding dot_env_patternPath using dot_env_default_excluded by (simp add: posix_def)
  have l: "loadConfiguration empty_excludes (newFileFilter empty_excludes) =
      \<lparr>includePatterns = [], excludePatterns = [], maxFileSize = 1048576\<rparr>"
    by (simp add: loadConfiguration_def newFileFilter_def empty_excludes_def no_settings_def
        config_get_def)
  have x: "\<not> isBinaryFile (posix ''/'') ''/ws/.env''"
    by (simp add: isBinaryFile_def posix_def dot_env_paths toLowerCase_def binaryExtensions_def)
  have "fst (shouldSyncFile (posix ''/'') empty_excludes (newFileFilter empty_excludes) ''/ws/.env''
        (Some ''/ws'')) = True"
    using x by (simp add: shouldSyncFile_def l posix_def dot_env_paths)
  with 2 show ?thesis by simp
qed

section \<open>What a broadcast leaves unchanged\<close>

text \<open>The connection manager and the broker change the table, the ids closed, the console
  and the trace of broadcasts, and nothing else of the state they are given.\<close>

lemma removeConnection_frame:
  "\<exists>c d. snd (removeConnection clientId s) = s\<lparr>connections := c, closed := d\<rparr>"
proof (cases "map_of (connections s) clientId")
  case None
  have "s = s\<lparr>connections := connections s, closed := closed s\<rparr>" by simp
  then show ?thesis using None unfolding removeConnection_def by (metis option.simps(4) snd_conv)
next
  case (Some a)
  have "snd (removeConnection clientId s) =
      s\<lparr>connections := AList.delete clientId (connections s),
        closed := (if readyState (ws a) = OPEN then closed s @ [clientId] else closed s)\<rparr>"
    using Some by (simp add: removeConnection_def)
  then show ?thesis by blast
qed

lemma removeAll_connections_frame:
  "\<exists>c d. removeAll_connections ids s = s\<lparr>connections := c, closed := d\<rparr>"
proof (induction ids arbitrary: s)
  case Nil
  have "s = s\<lparr>connections := connections s, closed := closed s\<rparr>" by simp
  then show ?case unfolding removeAll_connections_def by (metis foldl_Nil)
next
  case (Cons a ids)
  obtain c d where 1: "snd (removeConnection a s) = s\<lparr>connections := c, closed := d\<rparr>"
    using removeConnection_frame by blast
  obtain c' d' where 2: "removeAll_connections ids (snd (removeConnection a s)) =
      (snd (removeConnection a s))\<lparr>connections := c', closed := d'\<rparr>"
    using Cons.IH by blast
  have "removeAll_connections (a # ids) s = removeAll_connections ids (snd (removeConnection a s))"
    by (simp add: removeAll_connections_def)
  then have "removeAll_connections (a # ids) s = s\<lparr>connections := c', closed := d'\<rparr>"
    using 2 [unfolded 1] by (simp add: 1)
  then show ?case by blast
qed

lemma broadcast_frame:
  "\<exists>c d e. broadcast message s = s\<lparr>connections := c, closed := d, console := e\<rparr>"
proof -
  obtain conns' dead con' where p: "broadcast_pass message (connections s) [] (console s) = (conns', dead, con')"
    by (cases "broadcast_pass message (connections s) [] (console s)") auto
  obtain c d where "removeAll_connections dead (s\<lparr>connections := conns', console := con'\<rparr>) =
      (s\<lparr>connections := conns', console := con'\<rparr>)\<lparr>connections := c, closed := d\<rparr>"
    using removeAll_connections_frame by blast
  then have "broadcast message s = s\<lparr>connections := c, closed := d, console := con'\<rparr>"
    by (simp add: broadcast_def p)
  then show ?thesis by blast
qed

lemma MessageBroker_broadcast_frame:
  "\<exists>c d e. MessageBroker_broadcast stringify m s =
     s\<lparr>connections := c, closed := d, console := e, broadcasts := broadcasts s @ [m]\<rparr>"
proof -
  obtain c d e where "broadcast (stringify m) (s\<lparr>broadcasts := broadcasts s @ [m]\<rparr>) =
      (s\<lparr>broadcasts := broadcasts s @ [m]\<rparr>)\<lparr>connections := c, closed := d, console := e\<rparr>"
    using broadcast_frame by blast
  then have "MessageBroker_broadcast stringify m s =
     s\<lparr>connections := c, closed := d, console := e, broadcasts := broadcasts s @ [m]\<rparr>"
    by (simp add: MessageBroker_broadcast_def)
  then show ?thesis by blast
qed

section \<open>The sync manager\<close>

text \<open>
  Claim C7, as amended. When the tracked document and the document of the event's editor
  have the same uri, \<open>handleEditorChange\<close> keeps the tracked document, emits no message and
  leaves the connections, the broker and the environment as they were; but it is not a
  no-op: the active editor becomes the event's editor, and a pending debounce timer is
  cleared, because the timer is cleared before the two uris are compared.
\<close>

theorem same_document_editor_change:
  assumes "currentDocument s = Some c"
    and "uri (documents s (editor_document (editors s e))) = uri (documents s c)"
  shows "handleEditorChange P stringify (Some e) s =
           (case debounceTimer s of
              None \<Rightarrow> s\<lparr>activeEditor := Some e\<rparr>
            | Some timer \<Rightarrow>
                s\<lparr>activeEditor := Some e, debounceTimer := None,
                  timers := filter (\<lambda>(t, due). t \<noteq> timer) (timers s)\<rparr>)"
  using assms by (simp add: handleEditorChange_def clearTimeout_def Let_def split: option.splits)

theorem same_document_editor_change_witness:
  "currentDocument editing = Some 0
   \<and> uri (documents editing (editor_document (editors editing 1))) = uri (documents editing 0)
   \<and> handleEditorChange (posix ''/'') (\<lambda>m. ''m'') (Some 1) editing = tracking\<lparr>activeEditor := Some 1, nextTimer := 1\<rparr>"
proof -
  have 1: "currentDocument editing = Some 0"
    and 2: "uri (documents editing (editor_document (editors editing 1))) = uri (documents editing 0)"
    by (simp_all add: editing_def tracking_def)
  from same_document_editor_change [OF 1 2, of "posix ''/''" "\<lambda>m. ''m''"]
  have "handleEditorChange (posix ''/'') (\<lambda>m. ''m'') (Some 1) editing = tracking\<lparr>activeEditor := Some 1, nextTimer := 1\<rparr>"
    by (simp add: editing_def tracking_def)
  with 1 2 show ?thesis by blast
qed

text \<open>
  Claim C7 as stated fails: with an edit of a.ts pending, the active editor changing to a
  second editor on a.ts clears the timer and replaces the active editor.
\<close>

theorem same_document_editor_change_counterexample:
  "currentDocument editing = Some 0
   \<and> uri (documents editing (editor_document (editors editing 1))) = uri (documents editing 0)
   \<and> debounceTimer editing = Some 0 \<and> timers editing = [(0, 500)] \<and> activeEditor editing = Some 0
   \<and> debounceTimer (handleEditorChange (posix ''/'') (\<lambda>m. ''m'') (Some 1) editing) = None
   \<and> timers (handleEditorChange (posix ''/'') (\<lambda>m. ''m'') (Some 1) editing) = []
   \<and> activeEditor (handleEditorChange (posix ''/'') (\<lambda>m. ''m'') (Some 1) editing) = Some 1
   \<and> handleEditorChange (posix ''/'') (\<lambda>m. ''m'') (Some 1) editing \<noteq> editing"
proof -
  have t: "debounceTimer (handleEditorChange (posix ''/'') (\<lambda>m. ''m'') (Some 1) editing) = None"
    by (simp add: handleEditorChange_def clearTimeout_def editing_def tracking_def)
  have "debounceTimer editing = Some 0"
    by (simp add: editing_def)
  with t have "handleEditorChange (posix ''/'') (\<lambda>m. ''m'') (Some 1) editing \<noteq> editing"
    by auto
  then show ?thesis
    by (simp add: handleEditorChange_def clearTimeout_def editing_def tracking_def)
qed

lemma shouldSync_frame:
  "snd (FileSyncManager_shouldSyncFile P d s) = s
   \<or> snd (FileSyncManager_shouldSyncFile P d s) =
       s\<lparr>fileFilter := loadConfiguration (configuration s) (fileFilter s)\<rparr>"
  by (auto simp: FileSyncManager_shouldSyncFile_def shouldSyncFile_def Let_def split: prod.splits)

lemma shouldSync_True_state:
  "fst (FileSyncManager_shouldSyncFile P d s) \<Longrightarrow>
   snd (FileSyncManager_shouldSyncFile P d s) =
     s\<lparr>fileFilter := loadConfiguration (configuration s) (fileFilter s)\<rparr>"
  by (auto simp: FileSyncManager_shouldSyncFile_def shouldSyncFile_def Let_def
      split: prod.splits if_splits)

lemma syncFileUpdate_frame:
  "\<exists>c d' e b f. syncFileUpdate P stringify d s =
      s\<lparr>connections := c, closed := d', console := e, broadcasts := b, fileFilter := f\<rparr>"
proof (cases "FileSyncManager_shouldSyncFile P d s")
  case (Pair ok s')
  from shouldSync_frame [of P d s] Pair
  have s': "s' = s \<or> s' = s\<lparr>fileFilter := loadConfiguration (configuration s) (fileFilter s)\<rparr>"
    by simp
  have triv: "s = s\<lparr>connections := connections s, closed := closed s, console := console s,
      broadcasts := broadcasts s, fileFilter := fileFilter s\<rparr>"
    by simp
  show ?thesis
  proof (cases ok)
    case False
    then have "syncFileUpdate P stringify d s = s'"
      using Pair by (simp add: syncFileUpdate_def)
    with s' show ?thesis
    proof (elim disjE)
      assume "syncFileUpdate P stringify d s = s'" "s' = s"
      then have "syncFileUpdate P stringify d s = s\<lparr>connections := connections s, closed := closed s,
          console := console s, broadcasts := broadcasts s, fileFilter := fileFilter s\<rparr>"
        by simp
      then show ?thesis by blast
    next
      assume "syncFileUpdate P stringify d s = s'"
        "s' = s\<lparr>fileFilter := loadConfiguration (configuration s) (fileFilter s)\<rparr>"
      then have "syncFileUpdate P stringify d s = s\<lparr>connections := connections s, closed := closed s,
          console := console s, broadcasts := broadcasts s,
          fileFilter := loadConfiguration (configuration s) (fileFilter s)\<rparr>"
        by simp
      then show ?thesis by blast
    qed
  next
    case True
    let ?m = "update_of P d s'"
    obtain c d' e where "MessageBroker_broadcast stringify ?m s' =
        s'\<lparr>connections := c, closed := d', console := e, broadcasts := broadcasts s' @ [?m]\<rparr>"
      using MessageBroker_broadcast_frame by blast
    then have "syncFileUpdate P stringify d s =
        s'\<lparr>connections := c, closed := d', console := e, broadcasts := broadcasts s' @ [?m]\<rparr>"
      using Pair True
      by (simp add: syncFileUpdate_def getFileContent_def broadcastFileUpdate_def update_of_def)
    with s' show ?thesis
    proof (elim disjE)
      assume a: "syncFileUpdate P stringify d s =
        s'\<lparr>connections := c, closed := d', console := e, broadcasts := broadcasts s' @ [?m]\<rparr>"
        and "s' = s"
      then have "syncFileUpdate P stringify d s =
        s\<lparr>connections := c, closed := d', console := e, broadcasts := broadcasts s @ [update_of P d s],
          fileFilter := fileFilter s\<rparr>"
        by simp
      then show ?thesis by blast
    next
      assume a: "syncFileUpdate P stringify d s =
        s'\<lparr>connections := c, closed := d', console := e, broadcasts := broadcasts s' @ [?m]\<rparr>"
        and b: "s' = s\<lparr>fileFilter := loadConfiguration (configuration s) (fileFilter s)\<rparr>"
      have "syncFileUpdate P stringify d s =
        s\<lparr>connections := c, closed := d', console := e, broadcasts := broadcasts s' @ [?m],
          fileFilter := loadConfiguration (configuration s) (fileFilter s)\<rparr>"
        unfolding a by (subst b) simp
      then show ?thesis by blast
    qed
  qed
qed

lemma syncFileSwitch_frame:
  "\<exists>c d' e b f. syncFileSwitch P stringify d s =
      s\<lparr>connections := c, closed := d', console := e, broadcasts := b, fileFilter := f\<rparr>"
proof (cases "FileSyncManager_shouldSyncFile P d s")
  case (Pair ok s')
  from shouldSync_frame [of P d s] Pair
  have "s' = s \<or> s' = s\<lparr>fileFilter := loadConfiguration (configuration s) (fileFilter s)\<rparr>"
    by simp
  then obtain f where s': "s' = s\<lparr>fileFilter := f\<rparr>"
    by (metis sync.surjective sync.update_convs(1))
  show ?thesis
  proof (cases ok)
    case False
    then have "syncFileSwitch P stringify d s = s\<lparr>connections := connections s, closed := closed s,
          console := console s, broadcasts := broadcasts s, fileFilter := f\<rparr>"
      using Pair s' by (simp add: syncFileSwitch_def)
    then show ?thesis by blast
  next
    case True
    let ?m = "switch_of P d s'"
    obtain c d' e where "MessageBroker_broadcast stringify ?m s' =
        s'\<lparr>connections := c, closed := d', console := e, broadcasts := broadcasts s' @ [?m]\<rparr>"
      using MessageBroker_broadcast_frame by blast
    then have "syncFileSwitch P stringify d s =
        s'\<lparr>connections := c, closed := d', console := e, broadcasts := broadcasts s' @ [?m]\<rparr>"
      using Pair True
      by (simp add: syncFileSwitch_def getFileContent_def broadcastFileSwitch_def switch_of_def)
    then have "syncFileSwitch P stringify d s =
        s\<lparr>connections := c, closed := d', console := e, broadcasts := broadcasts s' @ [?m],
          fileFilter := f\<rparr>"
      by (simp add: s')
    then show ?thesis by blast
  qed
qed

lemma syncFileSwitch_timers:
  "timers (syncFileSwitch P stringify d s) = timers s"
  "nextTimer (syncFileSwitch P stringify d s) = nextTimer s"
  "fired (syncFileSwitch P stringify d s) = fired s"
proof -
  obtain c d' e b f where "syncFileSwitch P stringify d s =
      s\<lparr>connections := c, closed := d', console := e, broadcasts := b, fileFilter := f\<rparr>"
    using syncFileSwitch_frame by blast
  then show "timers (syncFileSwitch P stringify d s) = timers s"
    "nextTimer (syncFileSwitch P stringify d s) = nextTimer s"
    "fired (syncFileSwitch P stringify d s) = fired s"
    by simp_all
qed

lemma syncFileUpdate_timers:
  "timers (syncFileUpdate P stringify d s) = timers s"
  "nextTimer (syncFileUpdate P stringify d s) = nextTimer s"
  "fired (syncFileUpdate P stringify d s) = fired s"
proof -
  obtain c d' e b f where "syncFileUpdate P stringify d s =
      s\<lparr>connections := c, closed := d', console := e, broadcasts := b, fileFilter := f\<rparr>"
    using syncFileUpdate_frame by blast
  then show "timers (syncFileUpdate P stringify d s) = timers s"
    "nextTimer (syncFileUpdate P stringify d s) = nextTimer s"
    "fired (syncFileUpdate P stringify d s) = fired s"
    by simp_all
qed

lemma fire_timers:
  "timers (fire P stringify x s) = filter (\<lambda>(t, due). t \<noteq> fst x) (timers s)"
  "nextTimer (fire P stringify x s) = nextTimer s"
  "fired (fire P stringify x s) = fired s @ [fst x]"
  by (simp_all add: fire_def debounceCallback_def syncFileUpdate_timers split: option.splits)

lemma fire_never_again:
  "never_again timer n s \<Longrightarrow> fst x \<noteq> timer \<Longrightarrow> never_again timer n (fire P stringify x s)"
  by (auto simp: never_again_def spent_def fire_timers)

lemma fold_fire_never_again:
  "never_again timer n s \<Longrightarrow> \<forall>x \<in> set xs. fst x \<noteq> timer \<Longrightarrow>
     never_again timer n (foldl (\<lambda>s' x. fire P stringify x s') s xs)"
  by (induction xs arbitrary: s) (simp_all add: fire_never_again)

lemma advance_never_again:
  assumes "never_again timer n s"
  shows "never_again timer n (advance P stringify t s)"
proof -
  let ?due = "sort_key snd (filter (\<lambda>(timer, due). due \<le> t) (timers s))"
  have "\<forall>x \<in> set ?due. fst x \<noteq> timer"
    using assms by (force simp: never_again_def spent_def)
  then have "never_again timer n (foldl (\<lambda>s' x. fire P stringify x s') s ?due)"
    by (rule fold_fire_never_again [OF assms])
  then show ?thesis
    by (simp add: advance_def Let_def never_again_def spent_def)
qed

lemma handleEditorChange_timers:
  "set (timers (handleEditorChange P stringify editor s)) \<subseteq> set (timers s)"
  "nextTimer (handleEditorChange P stringify editor s) = nextTimer s"
  "fired (handleEditorChange P stringify editor s) = fired s"
  by (auto simp: handleEditorChange_def Let_def clearTimeout_def syncFileSwitch_timers
      split: option.splits)

lemma handleDocumentChange_timers:
  "set (timers (handleDocumentChange d changes s)) \<subseteq> insert (nextTimer s, clock s + debounce_window s) (set (timers s))"
  "nextTimer (handleDocumentChange d changes s) \<ge> nextTimer s"
  "fired (handleDocumentChange d changes s) = fired s"
  by (auto simp: handleDocumentChange_def Let_def clearTimeout_def setTimeout_def
      debounce_window_def split: option.splits)

lemma dispatch_never_again:
  assumes "never_again timer n s"
  shows "never_again timer n (dispatch P stringify ev s)"
proof (cases ev)
  case (ActiveEditorChanged editor)
  then show ?thesis
    using assms handleEditorChange_timers [of P stringify editor s]
    by (auto simp: never_again_def spent_def)
next
  case (DocumentChanged d newText changes)
  let ?s1 = "s\<lparr>documents := (documents s)(d := (documents s d)\<lparr>getText := newText\<rparr>)\<rparr>"
  show ?thesis
    using assms DocumentChanged handleDocumentChange_timers [where d = d and changes = changes and s = ?s1]
    by (auto simp: never_again_def spent_def Let_def)
next
  case (ConfigurationChanged config)
  then show ?thesis
    using assms
    by (auto simp: never_again_def spent_def Let_def onConfigurationChanged_def
        syncFileSwitch_timers split: option.splits)
next
  case SyncCurrentFile
  then show ?thesis
    using assms
    by (auto simp: never_again_def spent_def syncCurrentFile_def syncFileSwitch_timers
        split: option.splits)
next
  case (Start activeTextEditor)
  show ?thesis
  proof (cases activeTextEditor)
    case None
    then show ?thesis
      using assms Start by (auto simp: never_again_def spent_def start_def)
  next
    case (Some e)
    then show ?thesis
      using assms Start handleEditorChange_timers [of P stringify "Some e" "s\<lparr>subscribed := True\<rparr>"]
      by (auto simp: never_again_def spent_def start_def)
  qed
next
  case Stop
  then show ?thesis
    using assms
    by (auto simp: never_again_def spent_def stop_def Let_def clearTimeout_def split: option.splits)
qed (use assms in \<open>auto simp: never_again_def spent_def\<close>)

lemma run_never_again:
  "never_again timer n s \<Longrightarrow> never_again timer n (run P stringify evs s)"
  unfolding run_def
  by (induction evs arbitrary: s) (simp_all add: step_def dispatch_never_again advance_never_again)

text \<open>
  Claim C4. When the debounce timer is pending and the active editor changes to an editor
  whose document has another uri, the timer is no longer set afterwards, the manager
  holds no timer, the new document is tracked, and whatever events follow and however
  far the clock moves, the callback of that timer never runs: it is in the trace of
  fired timers exactly as often as before the switch.
\<close>

theorem switch_cancels_pending_timer:
  assumes "currentDocument s = Some c"
    and "debounceTimer s = Some timer"
    and "(timer, due) \<in> set (timers s)"
    and "timer < nextTimer s"
    and "uri (documents s (editor_document (editors s e))) \<noteq> uri (documents s c)"
  shows "timer \<notin> fst ` set (timers (handleEditorChange P stringify (Some e) s))
       \<and> debounceTimer (handleEditorChange P stringify (Some e) s) = None
       \<and> currentDocument (handleEditorChange P stringify (Some e) s) =
           Some (editor_document (editors s e))
       \<and> (\<forall>evs t. count_list (fired (advance P stringify t
              (run P stringify evs (handleEditorChange P stringify (Some e) s)))) timer =
            count_list (fired s) timer)"
proof -
  let ?d = "editor_document (editors s e)"
  let ?s1 = "s\<lparr>activeEditor := Some e,
               timers := filter (\<lambda>(t, due). t \<noteq> timer) (timers s),
               debounceTimer := None, currentDocument := Some ?d\<rparr>"
  have h: "handleEditorChange P stringify (Some e) s = syncFileSwitch P stringify ?d ?s1"
    using assms by (simp add: handleEditorChange_def Let_def clearTimeout_def)
  obtain c' d' e' b f where fr: "syncFileSwitch P stringify ?d ?s1 =
      ?s1\<lparr>connections := c', closed := d', console := e', broadcasts := b, fileFilter := f\<rparr>"
    using syncFileSwitch_frame by blast
  have 1: "timer \<notin> fst ` set (timers (handleEditorChange P stringify (Some e) s))"
    unfolding h fr by auto
  have 2: "debounceTimer (handleEditorChange P stringify (Some e) s) = None"
    unfolding h fr by simp
  have 3: "currentDocument (handleEditorChange P stringify (Some e) s) = Some ?d"
    unfolding h fr by simp
  have "nextTimer (handleEditorChange P stringify (Some e) s) = nextTimer s"
    "fired (handleEditorChange P stringify (Some e) s) = fired s"
    unfolding h fr by simp_all
  with 1 assms(4)
  have n: "never_again timer (count_list (fired s) timer) (handleEditorChange P stringify (Some e) s)"
    by (simp add: never_again_def spent_def)
  have 4: "count_list (fired (advance P stringify t
              (run P stringify evs (handleEditorChange P stringify (Some e) s)))) timer =
            count_list (fired s) timer" for evs t
    using advance_never_again [OF run_never_again [OF n]] by (simp add: never_again_def)
  from 1 2 3 4 show ?thesis by blast
qed

text \<open>The debounce window is the configured \<open>debounceMs\<close> only when \<open>setTimeout\<close> accepts it;
  a value of zero, a negative one or one above \<open>TIMEOUT_MAX\<close> gives a timer due after one
  millisecond, so that edits a second apart are then two bursts.\<close>

lemma debounce_window_cases:
  "debounce_window s =
     (case cfg_debounceMs (configuration s) of
        None \<Rightarrow> 500
      | Some ms \<Rightarrow> if 1 \<le> ms \<and> ms \<le> 2147483647 then nat ms else 1)"
  by (simp add: debounce_window_def timeout_delay_def TIMEOUT_MAX_def config_get_def
      split: option.splits)

lemma huge_delay_window: "debounce_window huge_delay = 1"
  by (simp add: debounce_window_cases huge_delay_def)

lemma huge_delay_timer:
  "timers (handleDocumentChange 0 1 huge_delay) = [(0, 1)]
   \<and> \<not> spaced (debounce_window huge_delay) [(0, ''ab'', 1), (1000, ''abc'', 1)]"
  by (simp add: huge_delay_window)
     (simp add: handleDocumentChange_def setTimeout_def timeout_delay_def TIMEOUT_MAX_def
       config_get_def huge_delay_def tracking_def Let_def)

lemma advance_nothing_due:
  assumes "only_debounce_pending t s"
  shows "advance P stringify t s = s\<lparr>clock := max (clock s) t\<rparr>"
proof -
  have "filter (\<lambda>(timer, due). due \<le> t) (timers s) = []"
    using assms by (auto simp: only_debounce_pending_def list_all_iff filter_empty_conv)
  then show ?thesis by (simp add: advance_def)
qed

lemma clear_debounce_pending:
  assumes "only_debounce_pending t s"
  shows "(case debounceTimer s of Some timer \<Rightarrow> clearTimeout timer s | None \<Rightarrow> s) = s\<lparr>timers := []\<rparr>"
proof (cases "debounceTimer s")
  case None
  then have "timers s = []"
    using assms by (cases "timers s") (auto simp: only_debounce_pending_def)
  then show ?thesis using None by simp
next
  case (Some timer)
  have "filter (\<lambda>(t', due). t' \<noteq> timer) (timers s) = []"
    using assms Some by (auto simp: only_debounce_pending_def list_all_iff filter_empty_conv)
  then show ?thesis using Some by (simp add: clearTimeout_def)
qed

lemma burst_step:
  assumes "subscribed s" and "currentDocument s = Some c" and "0 < changes"
    and "clock s \<le> t" and "only_debounce_pending t s"
  shows "step P stringify (t, DocumentChanged c newText changes) s =
           s\<lparr>clock := t,
             documents := (documents s)(c := (documents s c)\<lparr>getText := newText\<rparr>),
             timers := [(nextTimer s, t + debounce_window s)],
             nextTimer := Suc (nextTimer s),
             debounceTimer := Some (nextTimer s)\<rparr>"
proof -
  let ?s0 = "s\<lparr>clock := t\<rparr>"
  let ?s1 = "?s0\<lparr>documents := (documents s)(c := (documents s c)\<lparr>getText := newText\<rparr>)\<rparr>"
  have a: "advance P stringify t s = ?s0"
    using advance_nothing_due [OF assms(5)] assms(4) by (simp add: max_def)
  have p: "only_debounce_pending t ?s1"
    using assms(5) by (simp add: only_debounce_pending_def)
  have c: "(case debounceTimer ?s1 of Some timer \<Rightarrow> clearTimeout timer ?s1 | None \<Rightarrow> ?s1) =
      ?s1\<lparr>timers := []\<rparr>"
    by (rule clear_debounce_pending [OF p])
  have "handleDocumentChange c changes ?s1 =
      ?s1\<lparr>timers := [(nextTimer s, t + debounce_window s)],
          nextTimer := Suc (nextTimer s), debounceTimer := Some (nextTimer s)\<rparr>"
    using assms(2,3) unfolding handleDocumentChange_def Let_def c
    by (simp add: setTimeout_def debounce_window_def)
  then show ?thesis
    using assms(1) by (simp add: step_def a Let_def)
qed

lemma burst_run:
  assumes "burst \<noteq> []"
  shows "subscribed s \<Longrightarrow> currentDocument s = Some c \<Longrightarrow>
      list_all (\<lambda>e. 0 < snd (snd e)) burst \<Longrightarrow> spaced (debounce_window s) burst \<Longrightarrow>
      clock s \<le> fst (hd burst) \<Longrightarrow> only_debounce_pending (fst (hd burst)) s \<Longrightarrow>
      \<exists>timer n. run P stringify (burst_events c burst) s =
        s\<lparr>clock := fst (last burst),
          documents := (documents s)(c := (documents s c)\<lparr>getText := fst (snd (last burst))\<rparr>),
          timers := [(timer, fst (last burst) + debounce_window s)],
          nextTimer := n,
          debounceTimer := Some timer\<rparr>"
  using assms
proof (induction burst arbitrary: s rule: list_nonempty_induct)
  case (single x)
  obtain t newText changes where x: "x = (t, newText, changes)"
    by (cases x) auto
  have "step P stringify (t, DocumentChanged c newText changes) s =
           s\<lparr>clock := t,
             documents := (documents s)(c := (documents s c)\<lparr>getText := newText\<rparr>),
             timers := [(nextTimer s, t + debounce_window s)],
             nextTimer := Suc (nextTimer s),
             debounceTimer := Some (nextTimer s)\<rparr>"
    using single by (intro burst_step) (simp_all add: x)
  then have "run P stringify (burst_events c [x]) s =
        s\<lparr>clock := fst (last [x]),
          documents := (documents s)(c := (documents s c)\<lparr>getText := fst (snd (last [x]))\<rparr>),
          timers := [(nextTimer s, fst (last [x]) + debounce_window s)],
          nextTimer := Suc (nextTimer s),
          debounceTimer := Some (nextTimer s)\<rparr>"
    by (simp add: run_def burst_events_def x)
  then show ?case by blast
next
  case (cons x xs)
  obtain t newText changes where x: "x = (t, newText, changes)"
    by (cases x) auto
  obtain y ys where xs: "xs = y # ys"
    using cons.hyps by (cases xs) auto
  let ?s1 = "s\<lparr>clock := t,
             documents := (documents s)(c := (documents s c)\<lparr>getText := newText\<rparr>),
             timers := [(nextTimer s, t + debounce_window s)],
             nextTimer := Suc (nextTimer s),
             debounceTimer := Some (nextTimer s)\<rparr>"
  have st: "step P stringify (t, DocumentChanged c newText changes) s = ?s1"
    using cons.prems by (intro burst_step) (simp_all add: x)
  have w: "debounce_window ?s1 = debounce_window s"
    by (simp add: debounce_window_def)
  have sp: "fst x \<le> fst y" "fst y < fst x + debounce_window s" "spaced (debounce_window s) xs"
    using cons.prems(4) by (simp_all add: xs)
  have "\<exists>timer n. run P stringify (burst_events c xs) ?s1 =
        ?s1\<lparr>clock := fst (last xs),
          documents := (documents ?s1)(c := (documents ?s1 c)\<lparr>getText := fst (snd (last xs))\<rparr>),
          timers := [(timer, fst (last xs) + debounce_window ?s1)],
          nextTimer := n,
          debounceTimer := Some timer\<rparr>"
  proof (rule cons.IH)
    show "subscribed ?s1" using cons.prems(1) by simp
    show "currentDocument ?s1 = Some c" using cons.prems(2) by simp
    show "list_all (\<lambda>e. 0 < snd (snd e)) xs" using cons.prems(3) by simp
    show "spaced (debounce_window ?s1) xs" using sp(3) by (simp add: w)
    show "clock ?s1 \<le> fst (hd xs)" using sp(1) by (simp add: xs x)
    show "only_debounce_pending (fst (hd xs)) ?s1"
      using sp(2) by (simp add: only_debounce_pending_def xs x)
  qed
  then obtain timer n where r: "run P stringify (burst_events c xs) ?s1 =
        ?s1\<lparr>clock := fst (last xs),
          documents := (documents ?s1)(c := (documents ?s1 c)\<lparr>getText := fst (snd (last xs))\<rparr>),
          timers := [(timer, fst (last xs) + debounce_window ?s1)],
          nextTimer := n,
          debounceTimer := Some timer\<rparr>"
    by blast
  have "run P stringify (burst_events c (x # xs)) s = run P stringify (burst_events c xs) ?s1"
    using st by (simp add: run_def burst_events_def x)
  also have "\<dots> = s\<lparr>clock := fst (last (x # xs)),
          documents := (documents s)(c := (documents s c)\<lparr>getText := fst (snd (last (x # xs)))\<rparr>),
          timers := [(timer, fst (last (x # xs)) + debounce_window s)],
          nextTimer := n,
          debounceTimer := Some timer\<rparr>"
    unfolding r using cons.hyps by (simp add: w)
  finally show ?case by blast
qed

lemma shouldSync_env:
  "fst (FileSyncManager_shouldSyncFile P c
     (s\<lparr>clock := k, timers := ts, nextTimer := n, debounceTimer := dt, fired := fs\<rparr>)) =
   fst (FileSyncManager_shouldSyncFile P c s)"
  by (simp add: FileSyncManager_shouldSyncFile_def Let_def split: prod.splits)

lemma syncFileUpdate_broadcasts:
  assumes "fst (FileSyncManager_shouldSyncFile P c s)"
  shows "broadcasts (syncFileUpdate P stringify c s) = broadcasts s @ [update_of P c s]"
proof -
  let ?s' = "s\<lparr>fileFilter := loadConfiguration (configuration s) (fileFilter s)\<rparr>"
  have p: "FileSyncManager_shouldSyncFile P c s = (True, ?s')"
    using assms shouldSync_True_state [OF assms] by (metis prod.collapse)
  obtain c' d' e where "MessageBroker_broadcast stringify (update_of P c ?s') ?s' =
        ?s'\<lparr>connections := c', closed := d', console := e,
            broadcasts := broadcasts ?s' @ [update_of P c ?s']\<rparr>"
    using MessageBroker_broadcast_frame by blast
  then have "syncFileUpdate P stringify c s =
        ?s'\<lparr>connections := c', closed := d', console := e,
            broadcasts := broadcasts ?s' @ [update_of P c ?s']\<rparr>"
    by (simp add: syncFileUpdate_def p getFileContent_def broadcastFileUpdate_def update_of_def)
  then show ?thesis
    by (simp add: update_of_def cursorPosition_def)
qed

lemma syncFileUpdate_denied:
  assumes "\<not> fst (FileSyncManager_shouldSyncFile P c s)"
  shows "broadcasts (syncFileUpdate P stringify c s) = broadcasts s"
proof -
  obtain s' where p: "FileSyncManager_shouldSyncFile P c s = (False, s')"
    using assms by (metis prod.collapse)
  from shouldSync_frame [of P c s] p
  have "s' = s \<or> s' = s\<lparr>fileFilter := loadConfiguration (configuration s) (fileFilter s)\<rparr>"
    by simp
  then have "broadcasts s' = broadcasts s" by auto
  then show ?thesis by (simp add: syncFileUpdate_def p)
qed

lemma advance_fires_one:
  assumes "timers s = [(timer, due)]" and "due \<le> t" and "clock s \<le> due"
    and "currentDocument s = Some c"
  shows "broadcasts (advance P stringify t s) =
           broadcasts (syncFileUpdate P stringify c (s\<lparr>timers := [], clock := due, fired := fired s @ [timer]\<rparr>))"
    and "fired (advance P stringify t s) = fired s @ [timer]"
    and "timers (advance P stringify t s) = []"
proof -
  have d: "sort_key snd (filter (\<lambda>(timer, due). due \<le> t) (timers s)) = [(timer, due)]"
    using assms(1,2) by simp
  have f: "fire P stringify (timer, due) s =
      syncFileUpdate P stringify c (s\<lparr>timers := [], clock := due, fired := fired s @ [timer]\<rparr>)"
    using assms by (simp add: fire_def debounceCallback_def max_def)
  show "broadcasts (advance P stringify t s) =
           broadcasts (syncFileUpdate P stringify c (s\<lparr>timers := [], clock := due, fired := fired s @ [timer]\<rparr>))"
    by (simp add: advance_def d f Let_def)
  show "fired (advance P stringify t s) = fired s @ [timer]"
    by (simp add: advance_def d f syncFileUpdate_timers Let_def)
  show "timers (advance P stringify t s) = []"
    by (simp add: advance_def d f syncFileUpdate_timers Let_def)
qed

text \<open>
  Claim C3, as amended. The manager is listening and tracks document \<open>c\<close>; a burst of one
  or more content changes of \<open>c\<close> arrives, each within the debounce window of the one before
  it, the window being the delay the timer really gets (\<open>debounceMs\<close> when it is between 1
  and 2147483647, one millisecond otherwise); no timer other than a debounce timer not
  yet due is pending when it starts. Nothing is broadcast during the burst, and once the
  clock has passed the last change by the window no timer is set. If the document, with
  the text of the last change, passes \<open>shouldSyncFile\<close> of the manager, exactly one message
  has been broadcast by then: the \<open>file_update\<close> with the text of the last change, stamped
  with the time the timer fired, its language as \<open>getLanguageName\<close> gives it. If the
  document does not pass, nothing has been broadcast.
\<close>

theorem burst_gives_one_update:
  assumes "subscribed s" and "currentDocument s = Some c"
    and "burst \<noteq> []"
    and "list_all (\<lambda>e. 0 < snd (snd e)) burst"
    and "spaced (debounce_window s) burst"
    and "clock s \<le> fst (hd burst)"
    and "only_debounce_pending (fst (hd burst)) s"
    and "fst (last burst) + debounce_window s \<le> T"
  shows "broadcasts (run P stringify (burst_events c burst) s) = broadcasts s
       \<and> timers (advance P stringify T (run P stringify (burst_events c burst) s)) = []
       \<and> (fst (FileSyncManager_shouldSyncFile P c
             (s\<lparr>documents := (documents s)(c := (documents s c)\<lparr>getText := fst (snd (last burst))\<rparr>)\<rparr>)) \<longrightarrow>
           broadcasts (advance P stringify T (run P stringify (burst_events c burst) s)) =
             broadcasts s @
               [FileUpdateMessage (int (fst (last burst) + debounce_window s)) (fsPath (documents s c))
                  (path_basename P (fileName (documents s c)))
                  (getLanguageName (languageId (documents s c)))
                  (fst (snd (last burst))) (cursorPosition s)])
       \<and> (\<not> fst (FileSyncManager_shouldSyncFile P c
             (s\<lparr>documents := (documents s)(c := (documents s c)\<lparr>getText := fst (snd (last burst))\<rparr>)\<rparr>)) \<longrightarrow>
           broadcasts (advance P stringify T (run P stringify (burst_events c burst) s)) =
             broadcasts s)"
proof -
  let ?t = "fst (last burst)" and ?x = "fst (snd (last burst))"
  let ?edited = "s\<lparr>documents := (documents s)(c := (documents s c)\<lparr>getText := ?x\<rparr>)\<rparr>"
  obtain timer n where r: "run P stringify (burst_events c burst) s =
        s\<lparr>clock := ?t,
          documents := (documents s)(c := (documents s c)\<lparr>getText := ?x\<rparr>),
          timers := [(timer, ?t + debounce_window s)],
          nextTimer := n,
          debounceTimer := Some timer\<rparr>"
    using burst_run [OF assms(3,1,2,4,5,6,7)] by blast
  let ?r = "run P stringify (burst_events c burst) s"
  let ?f = "?r\<lparr>timers := [], clock := ?t + debounce_window s, fired := fired ?r @ [timer]\<rparr>"
  have 1: "broadcasts ?r = broadcasts s"
    by (simp add: r)
  have tr: "timers ?r = [(timer, ?t + debounce_window s)]"
    and cr: "clock ?r \<le> ?t + debounce_window s"
    and dr: "currentDocument ?r = Some c"
    using assms(2) by (simp_all add: r)
  have a: "broadcasts (advance P stringify T ?r) = broadcasts (syncFileUpdate P stringify c ?f)"
    by (rule advance_fires_one(1) [OF tr assms(8) cr dr])
  have 2: "timers (advance P stringify T ?r) = []"
    by (rule advance_fires_one(3) [OF tr assms(8) cr dr])
  have "?f = ?edited
      \<lparr>clock := ?t + debounce_window s, timers := [], nextTimer := n, debounceTimer := Some timer,
       fired := fired s @ [timer]\<rparr>"
    by (simp add: r)
  then have e: "fst (FileSyncManager_shouldSyncFile P c ?f) =
      fst (FileSyncManager_shouldSyncFile P c ?edited)"
    by (simp only: shouldSync_env)
  have 3: "broadcasts (advance P stringify T ?r) =
           broadcasts s @
             [FileUpdateMessage (int (?t + debounce_window s)) (fsPath (documents s c))
                (path_basename P (fileName (documents s c)))
                (getLanguageName (languageId (documents s c))) ?x (cursorPosition s)]"
    if "fst (FileSyncManager_shouldSyncFile P c ?edited)"
  proof -
    from that e have "fst (FileSyncManager_shouldSyncFile P c ?f)"
      by simp
    then have "broadcasts (syncFileUpdate P stringify c ?f) = broadcasts ?f @ [update_of P c ?f]"
      by (rule syncFileUpdate_broadcasts)
    also have "\<dots> = broadcasts s @
             [FileUpdateMessage (int (?t + debounce_window s)) (fsPath (documents s c))
                (path_basename P (fileName (documents s c)))
                (getLanguageName (languageId (documents s c))) ?x (cursorPosition s)]"
      by (simp add: r update_of_def cursorPosition_def)
    finally show ?thesis using a by simp
  qed
  have 4: "broadcasts (advance P stringify T ?r) = broadcasts s"
    if "\<not> fst (FileSyncManager_shouldSyncFile P c ?edited)"
  proof -
    from that e have "\<not> fst (FileSyncManager_shouldSyncFile P c ?f)"
      by simp
    then have "broadcasts (syncFileUpdate P stringify c ?f) = broadcasts ?f"
      by (rule syncFileUpdate_denied)
    then show ?thesis using a by (simp add: r)
  qed
  from 1 2 3 4 show ?thesis by blast
qed

lemma a_ts_paths:
  "posix_normalize ''/ws/a.ts'' = ''/ws/a.ts''" "posix_normalize ''/ws'' = ''/ws''"
  "posix_relative ''/'' ''/ws'' ''/ws/a.ts'' = ''a.ts''"
  "posix_extname ''/ws/a.ts'' = ''.ts''"
  "posix_basename ''/ws/a.ts'' = ''a.ts''"
  by (simp_all add: posix_normalize_def posix_relative_def posix_resolve_def posix_extname_def
      posix_basename_def)

lemma a_ts_not_excluded: "\<not> list_ex (minimatch_dot ''a.ts'') defaultExcludePatterns"
  by (simp add: defaultExcludePatterns_def minimatch_dot_def match_segment_def dot_segment_def
      is_magic_def)

lemma a_ts_filter:
  "shouldSyncFile (posix ''/'') no_settings flt ''/ws/a.ts'' (Some ''/ws'') =
     (True, \<lparr>includePatterns = [], excludePatterns = defaultExcludePatterns, maxFileSize = 1048576\<rparr>)"
proof -
  have l: "loadConfiguration no_settings flt =
      \<lparr>includePatterns = [], excludePatterns = defaultExcludePatterns, maxFileSize = 1048576\<rparr>"
    by (simp add: loadConfiguration_def no_settings_def config_get_def)
  have x: "\<not> isBinaryFile (posix ''/'') ''/ws/a.ts''"
    by (simp add: isBinaryFile_def posix_def a_ts_paths toLowerCase_def toLowerChar_def
        binaryExtensions_def)
  have b: "backslashes_to_slashes ''a.ts'' = ''a.ts''"
    by (simp add: backslashes_to_slashes_def)
  show ?thesis
    using x a_ts_not_excluded by (simp add: shouldSyncFile_def l posix_def a_ts_paths b)
qed

lemma dot_env_filter:
  "fst (shouldSyncFile (posix ''/'') no_settings flt ''/ws/.env'' (Some ''/ws'')) = False"
proof (rule exclusion_wins)
  have l: "excludePatterns (loadConfiguration no_settings flt) = defaultExcludePatterns"
    by (simp add: loadConfiguration_def no_settings_def config_get_def)
  show "list_ex (minimatch (posix ''/'') (patternPath (posix ''/'') ''/ws/.env'' (Some ''/ws'')))
     (excludePatterns (loadConfiguration no_settings flt))"
    unfolding l dot_env_patternPath using dot_env_default_excluded by (simp add: posix_def)
qed

lemma denied_by_filter:
  assumes "\<not> fst (shouldSyncFile P (configuration s) (fileFilter s) (fsPath (documents s d))
       (getWorkspaceFolder s (uri (documents s d))))"
  shows "\<not> fst (FileSyncManager_shouldSyncFile P d s)"
  using assms by (auto simp: FileSyncManager_shouldSyncFile_def Let_def split: prod.splits)

theorem burst_gives_one_update_witness:
  "subscribed tracking \<and> currentDocument tracking = Some 0 \<and> three_edits \<noteq> []
   \<and> list_all (\<lambda>e. 0 < snd (snd e)) three_edits
   \<and> spaced (debounce_window tracking) three_edits
   \<and> clock tracking \<le> fst (hd three_edits)
   \<and> only_debounce_pending (fst (hd three_edits)) tracking
   \<and> fst (last three_edits) + debounce_window tracking \<le> 800
   \<and> broadcasts (run (posix ''/'') (\<lambda>m. ''m'') (burst_events 0 three_edits) tracking) = []
   \<and> broadcasts (advance (posix ''/'') (\<lambda>m. ''m'') 800
        (run (posix ''/'') (\<lambda>m. ''m'') (burst_events 0 three_edits) tracking)) =
       [FileUpdateMessage 800 ''/ws/a.ts'' ''a.ts'' (LanguageName ''typescript'') ''abcd'' (Some (Cursor 0 0))]"
proof -
  have w: "debounce_window tracking = 500"
    by (simp add: debounce_window_def tracking_def no_settings_def config_get_def timeout_delay_def TIMEOUT_MAX_def)
  have 1: "subscribed tracking" and 2: "currentDocument tracking = Some 0"
    and 6: "clock tracking \<le> fst (hd three_edits)"
    and 7: "only_debounce_pending (fst (hd three_edits)) tracking"
    by (simp_all add: tracking_def three_edits_def only_debounce_pending_def)
  have 3: "three_edits \<noteq> []" and 4: "list_all (\<lambda>e. 0 < snd (snd e)) three_edits"
    and 5: "spaced (debounce_window tracking) three_edits"
    and 8: "fst (last three_edits) + debounce_window tracking \<le> 800"
    by (simp_all add: three_edits_def w)
  have 9: "fst (FileSyncManager_shouldSyncFile (posix ''/'') 0
           (tracking\<lparr>documents := (documents tracking)
              (0 := (documents tracking 0)\<lparr>getText := fst (snd (last three_edits))\<rparr>)\<rparr>))"
    by (simp add: FileSyncManager_shouldSyncFile_def tracking_def a_ts_def three_edits_def
        a_ts_filter isFileSizeValid_def)
  have v: "broadcasts tracking = []" "fsPath (documents tracking 0) = ''/ws/a.ts''"
    "path_basename (posix ''/'') (fileName (documents tracking 0)) = ''a.ts''"
    "getLanguageName (languageId (documents tracking 0)) = LanguageName ''typescript''"
    "fst (snd (last three_edits)) = ''abcd''"
    "cursorPosition tracking = Some (Cursor 0 0)"
    by (simp_all add: tracking_def a_ts_def three_edits_def posix_def a_ts_paths
        getLanguageName_def languageMap_def cursorPosition_def)
  have v': "int (fst (last three_edits) + debounce_window tracking) = 800"
    by (simp add: w three_edits_def)
  note t = burst_gives_one_update [OF 1 2 3 4 5 6 7 8, of "posix ''/''" "\<lambda>m. ''m''", unfolded v v']
  from t 9 [unfolded v] have "broadcasts (run (posix ''/'') (\<lambda>m. ''m'') (burst_events 0 three_edits) tracking) = []
   \<and> broadcasts (advance (posix ''/'') (\<lambda>m. ''m'') 800
        (run (posix ''/'') (\<lambda>m. ''m'') (burst_events 0 three_edits) tracking)) =
       [FileUpdateMessage 800 ''/ws/a.ts'' ''a.ts'' (LanguageName ''typescript'') ''abcd'' (Some (Cursor 0 0))]"
    by simp
  with 1 2 3 4 5 6 7 8 show ?thesis by blast
qed

text \<open>
  Claim C3 as stated fails: a tracked document that the filter denies (here \<open>/ws/.env\<close>)
  is edited once; the timer fires and nothing is broadcast.
\<close>

theorem filtered_document_is_never_broadcast_counterexample:
  "subscribed tracking_secret \<and> currentDocument tracking_secret = Some 0
   \<and> timers tracking_secret = []
   \<and> fired (advance (posix ''/'') (\<lambda>m. ''m'') 1000
        (run (posix ''/'') (\<lambda>m. ''m'') [(0, DocumentChanged 0 ''KEY=1'' 1)] tracking_secret)) = [0]
   \<and> broadcasts (advance (posix ''/'') (\<lambda>m. ''m'') 1000
        (run (posix ''/'') (\<lambda>m. ''m'') [(0, DocumentChanged 0 ''KEY=1'' 1)] tracking_secret)) = []"
proof -
  let ?P = "posix ''/''" and ?str = "\<lambda>m::message. ''m''"
  have 1: "subscribed tracking_secret" and 2: "currentDocument tracking_secret = Some 0"
    and 3: "timers tracking_secret = []" and c: "clock tracking_secret \<le> 0"
    and p: "only_debounce_pending 0 tracking_secret"
    by (simp_all add: tracking_secret_def tracking_def only_debounce_pending_def)
  have w: "debounce_window tracking_secret = 500"
    by (simp add: debounce_window_def tracking_secret_def tracking_def no_settings_def config_get_def
        timeout_delay_def TIMEOUT_MAX_def)
  let ?s1 = "tracking_secret\<lparr>clock := 0,
             documents := (documents tracking_secret)(0 := (documents tracking_secret 0)\<lparr>getText := ''KEY=1''\<rparr>),
             timers := [(nextTimer tracking_secret, 0 + debounce_window tracking_secret)],
             nextTimer := Suc (nextTimer tracking_secret),
             debounceTimer := Some (nextTimer tracking_secret)\<rparr>"
  have "step ?P ?str (0, DocumentChanged 0 ''KEY=1'' 1) tracking_secret = ?s1"
    by (rule burst_step [OF 1 2 _ c p]) simp
  then have r: "run ?P ?str [(0, DocumentChanged 0 ''KEY=1'' 1)] tracking_secret = ?s1"
    by (simp add: run_def)
  have n: "nextTimer tracking_secret = 0"
    by (simp add: tracking_secret_def tracking_def)
  have t: "timers ?s1 = [(0, 500)]" and k: "clock ?s1 \<le> 500" and d: "currentDocument ?s1 = Some 0"
    by (simp_all add: w n 2)
  have l: "(500::nat) \<le> 1000" by simp
  let ?f = "?s1\<lparr>timers := [], clock := 500, fired := fired ?s1 @ [0]\<rparr>"
  have "\<not> fst (shouldSyncFile ?P (configuration ?f) (fileFilter ?f) (fsPath (documents ?f 0))
       (getWorkspaceFolder ?f (uri (documents ?f 0))))"
    by (simp add: tracking_secret_def tracking_def dot_env_def dot_env_filter)
  then have deny: "\<not> fst (FileSyncManager_shouldSyncFile ?P 0 ?f)"
    by (rule denied_by_filter)
  have "broadcasts (advance ?P ?str 1000 ?s1) = broadcasts (syncFileUpdate ?P ?str 0 ?f)"
    by (rule advance_fires_one(1) [OF t l k d])
  also have "\<dots> = broadcasts ?f"
    by (rule syncFileUpdate_denied [OF deny])
  also have "\<dots> = []"
    by (simp add: tracking_secret_def tracking_def)
  finally have 4: "broadcasts (advance ?P ?str 1000
      (run ?P ?str [(0, DocumentChanged 0 ''KEY=1'' 1)] tracking_secret)) = []"
    by (simp only: r)
  have "fired (advance ?P ?str 1000 ?s1) = fired ?s1 @ [0]"
    by (rule advance_fires_one(2) [OF t l k d])
  then have 5: "fired (advance ?P ?str 1000
      (run ?P ?str [(0, DocumentChanged 0 ''KEY=1'' 1)] tracking_secret)) = [0]"
    unfolding r by (simp add: tracking_secret_def tracking_def)
  from 1 2 3 4 5 show ?thesis by blast
qed

text \<open>
  What firing the one pending timer leaves of the state: the subscription, the tracked
  document, the editors, the documents and the settings.
\<close>

lemma syncFileUpdate_env:
  "subscribed (syncFileUpdate P stringify d s) = subscribed s"
  "currentDocument (syncFileUpdate P stringify d s) = currentDocument s"
  "activeEditor (syncFileUpdate P stringify d s) = activeEditor s"
  "documents (syncFileUpdate P stringify d s) = documents s"
  "editors (syncFileUpdate P stringify d s) = editors s"
  "configuration (syncFileUpdate P stringify d s) = configuration s"
  "getWorkspaceFolder (syncFileUpdate P stringify d s) = getWorkspaceFolder s"
  "clock (syncFileUpdate P stringify d s) = clock s"
proof -
  obtain c d' e b f where "syncFileUpdate P stringify d s =
      s\<lparr>connections := c, closed := d', console := e, broadcasts := b, fileFilter := f\<rparr>"
    using syncFileUpdate_frame by blast
  then show "subscribed (syncFileUpdate P stringify d s) = subscribed s"
    "currentDocument (syncFileUpdate P stringify d s) = currentDocument s"
    "activeEditor (syncFileUpdate P stringify d s) = activeEditor s"
    "documents (syncFileUpdate P stringify d s) = documents s"
    "editors (syncFileUpdate P stringify d s) = editors s"
    "configuration (syncFileUpdate P stringify d s) = configuration s"
    "getWorkspaceFolder (syncFileUpdate P stringify d s) = getWorkspaceFolder s"
    "clock (syncFileUpdate P stringify d s) = clock s"
    by simp_all
qed

lemma advance_one_env:
  assumes "timers s = [(timer, due)]" and "due \<le> t" and "clock s \<le> due"
    and "currentDocument s = Some c"
  shows "subscribed (advance P stringify t s) = subscribed s"
    and "currentDocument (advance P stringify t s) = currentDocument s"
    and "activeEditor (advance P stringify t s) = activeEditor s"
    and "documents (advance P stringify t s) = documents s"
    and "editors (advance P stringify t s) = editors s"
    and "configuration (advance P stringify t s) = configuration s"
    and "getWorkspaceFolder (advance P stringify t s) = getWorkspaceFolder s"
    and "clock (advance P stringify t s) = t"
proof -
  have d: "sort_key snd (filter (\<lambda>(timer, due). due \<le> t) (timers s)) = [(timer, due)]"
    using assms(1,2) by simp
  have f: "fire P stringify (timer, due) s =
      syncFileUpdate P stringify c (s\<lparr>timers := [], clock := due, fired := fired s @ [timer]\<rparr>)"
    using assms by (simp add: fire_def debounceCallback_def max_def)
  show "subscribed (advance P stringify t s) = subscribed s"
    and "currentDocument (advance P stringify t s) = currentDocument s"
    and "activeEditor (advance P stringify t s) = activeEditor s"
    and "documents (advance P stringify t s) = documents s"
    and "editors (advance P stringify t s) = editors s"
    and "configuration (advance P stringify t s) = configuration s"
    and "getWorkspaceFolder (advance P stringify t s) = getWorkspaceFolder s"
    and "clock (advance P stringify t s) = t"
    using assms(2)
    by (simp_all add: advance_def d f Let_def syncFileUpdate_env max_def)
qed

lemma a_ts_filter_any_delay:
  "shouldSyncFile (posix ''/'') (no_settings\<lparr>cfg_debounceMs := ms\<rparr>) flt ''/ws/a.ts'' (Some ''/ws'') =
     (True, \<lparr>includePatterns = [], excludePatterns = defaultExcludePatterns, maxFileSize = 1048576\<rparr>)"
proof -
  have l: "loadConfiguration (no_settings\<lparr>cfg_debounceMs := ms\<rparr>) flt =
      \<lparr>includePatterns = [], excludePatterns = defaultExcludePatterns, maxFileSize = 1048576\<rparr>"
    by (simp add: loadConfiguration_def no_settings_def config_get_def)
  have x: "\<not> isBinaryFile (posix ''/'') ''/ws/a.ts''"
    by (simp add: isBinaryFile_def posix_def a_ts_paths toLowerCase_def toLowerChar_def
        binaryExtensions_def)
  have b: "backslashes_to_slashes ''a.ts'' = ''a.ts''"
    by (simp add: backslashes_to_slashes_def)
  show ?thesis
    using x a_ts_not_excluded by (simp add: shouldSyncFile_def l posix_def a_ts_paths b)
qed

text \<open>The lookup \<open>languageMap[languageId]\<close> also finds what the object inherits: for the id
  \<open>constructor\<close> the language of a message is not a string but a member of \<open>Object.prototype\<close>.\<close>

lemma inherited_language_names:
  "getLanguageName ''constructor'' = PrototypeMember ''constructor''
   \<and> getLanguageName ''toString'' = PrototypeMember ''toString''
   \<and> getLanguageName ''__proto__'' = PrototypeMember ''__proto__''
   \<and> getLanguageName ''typescript'' = LanguageName ''typescript''
   \<and> getLanguageName ''cobol'' = LanguageName ''cobol''
   \<and> getLanguageName [] = LanguageName ''plaintext''"
  by (simp add: getLanguageName_def languageMap_def objectPrototypeKeys_def)

text \<open>
  With \<open>debounceMs\<close> set to 3000000000 the timer of an edit is due one millisecond later, so
  two edits a second apart are two bursts and each of them is broadcast.
\<close>

lemma huge_delay_two_updates:
  "broadcasts (advance (posix ''/'') stringify 2000
     (run (posix ''/'') stringify
        [(0, DocumentChanged 0 ''ab'' 1), (1000, DocumentChanged 0 ''abc'' 1)] huge_delay)) =
   [FileUpdateMessage 1 ''/ws/a.ts'' ''a.ts'' (LanguageName ''typescript'') ''ab'' (Some (Cursor 0 0)),
    FileUpdateMessage 1001 ''/ws/a.ts'' ''a.ts'' (LanguageName ''typescript'') ''abc'' (Some (Cursor 0 0))]"
proof -
  let ?P = "posix ''/''"
  have h: "subscribed huge_delay" "currentDocument huge_delay = Some 0" "clock huge_delay \<le> 0"
    "only_debounce_pending 0 huge_delay" "nextTimer huge_delay = 0" "fired huge_delay = []"
    "broadcasts huge_delay = []"
    by (simp_all add: huge_delay_def tracking_def only_debounce_pending_def)
  define s1 where "s1 = huge_delay\<lparr>clock := 0,
             documents := (documents huge_delay)(0 := (documents huge_delay 0)\<lparr>getText := ''ab''\<rparr>),
             timers := [(0, 1)], nextTimer := 1, debounceTimer := Some 0\<rparr>"
  have "step ?P stringify (0, DocumentChanged 0 ''ab'' 1) huge_delay =
      huge_delay\<lparr>clock := 0,
             documents := (documents huge_delay)(0 := (documents huge_delay 0)\<lparr>getText := ''ab''\<rparr>),
             timers := [(nextTimer huge_delay, 0 + debounce_window huge_delay)],
             nextTimer := Suc (nextTimer huge_delay),
             debounceTimer := Some (nextTimer huge_delay)\<rparr>"
    by (rule burst_step [OF h(1,2) _ h(3,4)]) simp
  then have s1: "step ?P stringify (0, DocumentChanged 0 ''ab'' 1) huge_delay = s1"
    by (simp only: h(5) huge_delay_window s1_def add_0 One_nat_def)
  have t1: "timers s1 = [(0, 1)]" and k1: "clock s1 \<le> 1" and d1: "currentDocument s1 = Some 0"
    by (simp_all add: s1_def h)
  have l1: "(1::nat) \<le> 1000" by simp
  define a1 where "a1 = advance ?P stringify 1000 s1"
  note env1 = advance_one_env [OF t1 l1 k1 d1, of ?P stringify, folded a1_def]
  define f1 where "f1 = s1\<lparr>timers := [], clock := 1, fired := fired s1 @ [0]\<rparr>"
  have ok1: "fst (FileSyncManager_shouldSyncFile ?P 0 f1)"
    by (simp add: f1_def s1_def FileSyncManager_shouldSyncFile_def huge_delay_def tracking_def
        a_ts_def a_ts_filter_any_delay isFileSizeValid_def)
  have "broadcasts a1 = broadcasts (syncFileUpdate ?P stringify 0 f1)"
    unfolding a1_def f1_def by (rule advance_fires_one(1) [OF t1 l1 k1 d1])
  also have "\<dots> = broadcasts f1 @ [update_of ?P 0 f1]"
    by (rule syncFileUpdate_broadcasts [OF ok1])
  also have "\<dots> = [FileUpdateMessage 1 ''/ws/a.ts'' ''a.ts'' (LanguageName ''typescript'') ''ab'' (Some (Cursor 0 0))]"
    by (simp add: f1_def s1_def h update_of_def huge_delay_def tracking_def a_ts_def posix_def
        a_ts_paths getLanguageName_def languageMap_def cursorPosition_def)
  finally have b1: "broadcasts a1 =
      [FileUpdateMessage 1 ''/ws/a.ts'' ''a.ts'' (LanguageName ''typescript'') ''ab'' (Some (Cursor 0 0))]" .
  have ta1: "timers a1 = []"
    unfolding a1_def by (rule advance_fires_one(3) [OF t1 l1 k1 d1])
  have e1: "subscribed s1" "documents s1 0 = a_ts\<lparr>getText := ''ab''\<rparr>"
    "configuration s1 = no_settings\<lparr>cfg_debounceMs := Some 3000000000\<rparr>"
    "getWorkspaceFolder s1 = (\<lambda>u. Some ''/ws'')" "activeEditor s1 = activeEditor tracking"
    "editors s1 = editors tracking"
    by (simp_all add: s1_def huge_delay_def tracking_def)
  have a1: "subscribed a1" "currentDocument a1 = Some 0" "clock a1 \<le> 1000"
    "only_debounce_pending 1000 a1"
    by (simp_all add: env1 e1 d1 only_debounce_pending_def ta1)
  have w2: "debounce_window a1 = 1"
    by (simp add: debounce_window_def env1 e1 config_get_def timeout_delay_def TIMEOUT_MAX_def)
  define s2 where "s2 = a1\<lparr>clock := 1000,
             documents := (documents a1)(0 := (documents a1 0)\<lparr>getText := ''abc''\<rparr>),
             timers := [(nextTimer a1, 1001)],
             nextTimer := Suc (nextTimer a1),
             debounceTimer := Some (nextTimer a1)\<rparr>"
  have "step ?P stringify (1000, DocumentChanged 0 ''abc'' 1) a1 =
     a1\<lparr>clock := 1000,
             documents := (documents a1)(0 := (documents a1 0)\<lparr>getText := ''abc''\<rparr>),
             timers := [(nextTimer a1, 1000 + debounce_window a1)],
             nextTimer := Suc (nextTimer a1),
             debounceTimer := Some (nextTimer a1)\<rparr>"
    by (rule burst_step [OF a1(1,2) _ a1(3,4)]) simp
  then have s2: "step ?P stringify (1000, DocumentChanged 0 ''abc'' 1) a1 = s2"
    by (simp add: w2 s2_def)
  have t2: "timers s2 = [(nextTimer a1, 1001)]" and k2: "clock s2 \<le> 1001"
    and d2: "currentDocument s2 = Some 0"
    by (simp_all add: s2_def a1)
  have l2: "(1001::nat) \<le> 2000" by simp
  define f2 where "f2 = s2\<lparr>timers := [], clock := 1001, fired := fired s2 @ [nextTimer a1]\<rparr>"
  have e2: "documents f2 0 = a_ts\<lparr>getText := ''abc''\<rparr>"
    "configuration f2 = no_settings\<lparr>cfg_debounceMs := Some 3000000000\<rparr>"
    "getWorkspaceFolder f2 = (\<lambda>u. Some ''/ws'')" "activeEditor f2 = activeEditor tracking"
    "editors f2 = editors tracking" "clock f2 = 1001" "broadcasts f2 = broadcasts a1"
    by (simp_all add: f2_def s2_def env1 e1)
  have ok2: "fst (FileSyncManager_shouldSyncFile ?P 0 f2)"
    by (simp add: FileSyncManager_shouldSyncFile_def e2 a_ts_def a_ts_filter_any_delay
        isFileSizeValid_def)
  have r: "run ?P stringify [(0, DocumentChanged 0 ''ab'' 1), (1000, DocumentChanged 0 ''abc'' 1)]
      huge_delay = s2"
  proof -
    have c: "clock a1 = 1000"
      by (rule env1(8))
    have "advance ?P stringify 1000 a1 = a1\<lparr>clock := max (clock a1) 1000\<rparr>"
      by (rule advance_nothing_due [OF a1(4)])
    then have i: "advance ?P stringify 1000 a1 = a1"
      by (simp add: c)
    have "step ?P stringify (1000, DocumentChanged 0 ''abc'' 1) s1 =
        step ?P stringify (1000, DocumentChanged 0 ''abc'' 1) a1"
      by (simp add: step_def i a1_def [symmetric])
    then have "step ?P stringify (1000, DocumentChanged 0 ''abc'' 1) s1 = s2"
      by (simp only: s2)
    then show ?thesis
      by (simp only: run_def foldl.simps s1)
  qed
  have "broadcasts (advance ?P stringify 2000 s2) = broadcasts (syncFileUpdate ?P stringify 0 f2)"
    unfolding f2_def by (rule advance_fires_one(1) [OF t2 l2 k2 d2])
  also have "\<dots> = broadcasts f2 @ [update_of ?P 0 f2]"
    by (rule syncFileUpdate_broadcasts [OF ok2])
  also have "\<dots> = [FileUpdateMessage 1 ''/ws/a.ts'' ''a.ts'' (LanguageName ''typescript'') ''ab'' (Some (Cursor 0 0)),
    FileUpdateMessage 1001 ''/ws/a.ts'' ''a.ts'' (LanguageName ''typescript'') ''abc'' (Some (Cursor 0 0))]"
    by (simp add: b1 update_of_def cursorPosition_def e2 tracking_def a_ts_def
        posix_def a_ts_paths getLanguageName_def languageMap_def)
  finally show ?thesis
    by (simp only: r)
qed

theorem switch_cancels_pending_timer_witness:
  "currentDocument editing = Some 0 \<and> debounceTimer editing = Some 0
   \<and> (0, 500) \<in> set (timers editing) \<and> 0 < nextTimer editing
   \<and> uri (documents editing (editor_document (editors editing 2))) \<noteq> uri (documents editing 0)
   \<and> 0 \<notin> fst ` set (timers (handleEditorChange (posix ''/'') (\<lambda>m. ''m'') (Some 2) editing))
   \<and> debounceTimer (handleEditorChange (posix ''/'') (\<lambda>m. ''m'') (Some 2) editing) = None
   \<and> currentDocument (handleEditorChange (posix ''/'') (\<lambda>m. ''m'') (Some 2) editing) = Some 1
   \<and> count_list (fired (advance (posix ''/'') (\<lambda>m. ''m'') 1000
        (run (posix ''/'') (\<lambda>m. ''m'') [(600, SyncCurrentFile)]
          (handleEditorChange (posix ''/'') (\<lambda>m. ''m'') (Some 2) editing)))) 0 = 0"
proof -
  have 1: "currentDocument editing = Some 0" and 2: "debounceTimer editing = Some 0"
    and 3: "(0, 500) \<in> set (timers editing)" and 4: "0 < nextTimer editing"
    and 5: "uri (documents editing (editor_document (editors editing 2))) \<noteq> uri (documents editing 0)"
    by (simp_all add: editing_def tracking_def a_ts_def b_ts_def)
  have e: "editor_document (editors editing 2) = 1" and f: "fired editing = []"
    by (simp_all add: editing_def tracking_def)
  from switch_cancels_pending_timer [OF 1 2 3 4 5, of "posix ''/''" "\<lambda>m. ''m''"]
  have "0 \<notin> fst ` set (timers (handleEditorChange (posix ''/'') (\<lambda>m. ''m'') (Some 2) editing))
   \<and> debounceTimer (handleEditorChange (posix ''/'') (\<lambda>m. ''m'') (Some 2) editing) = None
   \<and> currentDocument (handleEditorChange (posix ''/'') (\<lambda>m. ''m'') (Some 2) editing) = Some 1
   \<and> count_list (fired (advance (posix ''/'') (\<lambda>m. ''m'') 1000
        (run (posix ''/'') (\<lambda>m. ''m'') [(600, SyncCurrentFile)]
          (handleEditorChange (posix ''/'') (\<lambda>m. ''m'') (Some 2) editing)))) 0 = 0"
    unfolding e f by simp
  with 1 2 3 4 5 show ?thesis by blast
qed

section \<open>Timers are issued once\<close>

lemma timers_issued_iff:
  "timers_issued s \<longleftrightarrow>
     (\<forall>x \<in> set (timers s). fst x < nextTimer s)
     \<and> (\<forall>t. debounceTimer s = Some t \<longrightarrow> t < nextTimer s)"
  by (auto simp: timers_issued_def list_all_iff split: option.splits)

lemma syncFileSwitch_debounceTimer:
  "debounceTimer (syncFileSwitch P stringify d s) = debounceTimer s"
proof -
  obtain c d' e b f where "syncFileSwitch P stringify d s =
      s\<lparr>connections := c, closed := d', console := e, broadcasts := b, fileFilter := f\<rparr>"
    using syncFileSwitch_frame by blast
  then show ?thesis by simp
qed

lemma syncFileUpdate_debounceTimer:
  "debounceTimer (syncFileUpdate P stringify d s) = debounceTimer s"
proof -
  obtain c d' e b f where "syncFileUpdate P stringify d s =
      s\<lparr>connections := c, closed := d', console := e, broadcasts := b, fileFilter := f\<rparr>"
    using syncFileUpdate_frame by blast
  then show ?thesis by simp
qed

lemma fire_issued: "timers_issued s \<Longrightarrow> timers_issued (fire P stringify x s)"
proof -
  have "debounceTimer (fire P stringify x s) = debounceTimer s"
    by (simp add: fire_def debounceCallback_def syncFileUpdate_debounceTimer split: option.splits)
  then show "timers_issued s \<Longrightarrow> timers_issued (fire P stringify x s)"
    by (auto simp: timers_issued_iff fire_timers)
qed

lemma fold_fire_issued:
  "timers_issued s \<Longrightarrow> timers_issued (foldl (\<lambda>s' x. fire P stringify x s') s xs)"
  by (induction xs arbitrary: s) (simp_all add: fire_issued)

lemma advance_issued: "timers_issued s \<Longrightarrow> timers_issued (advance P stringify t s)"
proof -
  assume "timers_issued s"
  then have "timers_issued (foldl (\<lambda>s' x. fire P stringify x s') s
      (sort_key snd (filter (\<lambda>(timer, due). due \<le> t) (timers s))))"
    by (rule fold_fire_issued)
  then show ?thesis
    by (simp add: advance_def Let_def timers_issued_iff)
qed

lemma handleEditorChange_issued:
  assumes "timers_issued s"
  shows "timers_issued (handleEditorChange P stringify editor s)"
proof -
  have "debounceTimer (handleEditorChange P stringify editor s) = None
      \<or> debounceTimer (handleEditorChange P stringify editor s) = debounceTimer s"
    by (auto simp: handleEditorChange_def Let_def clearTimeout_def syncFileSwitch_debounceTimer
        split: option.splits)
  then show ?thesis
    using assms handleEditorChange_timers [of P stringify editor s]
    by (auto simp: timers_issued_iff)
qed

lemma handleDocumentChange_issued:
  assumes "timers_issued s"
  shows "timers_issued (handleDocumentChange d changes s)"
  using assms
  by (auto simp: handleDocumentChange_def Let_def clearTimeout_def setTimeout_def
      timers_issued_iff less_Suc_eq split: option.splits)

lemma dispatch_issued:
  assumes "timers_issued s"
  shows "timers_issued (dispatch P stringify ev s)"
proof (cases ev)
  case (ActiveEditorChanged editor)
  then show ?thesis using assms by (simp add: handleEditorChange_issued)
next
  case (DocumentChanged d newText changes)
  have "timers_issued (s\<lparr>documents := (documents s)(d := (documents s d)\<lparr>getText := newText\<rparr>)\<rparr>)"
    using assms by (simp add: timers_issued_iff)
  then show ?thesis
    using DocumentChanged by (simp add: Let_def handleDocumentChange_issued)
next
  case (ConfigurationChanged config)
  then show ?thesis
    using assms
    by (auto simp: timers_issued_iff Let_def onConfigurationChanged_def syncFileSwitch_timers
        syncFileSwitch_debounceTimer split: option.splits)
next
  case SyncCurrentFile
  then show ?thesis
    using assms
    by (auto simp: timers_issued_iff syncCurrentFile_def syncFileSwitch_timers
        syncFileSwitch_debounceTimer split: option.splits)
next
  case (Start activeTextEditor)
  have "timers_issued (s\<lparr>subscribed := True\<rparr>)"
    using assms by (simp add: timers_issued_iff)
  then show ?thesis
    using Start by (auto simp: start_def Let_def handleEditorChange_issued split: option.splits)
next
  case Stop
  then show ?thesis
    using assms
    by (auto simp: timers_issued_iff stop_def Let_def clearTimeout_def split: option.splits)
qed (use assms in \<open>auto simp: timers_issued_iff\<close>)

lemma run_issued: "timers_issued s \<Longrightarrow> timers_issued (run P stringify evs s)"
  unfolding run_def
  by (induction evs arbitrary: s) (simp_all add: step_def dispatch_issued advance_issued)

lemma pending_timer_was_issued:
  assumes "timers s = []" and "debounceTimer s = None"
    and "debounceTimer (run P stringify evs s) = Some timer"
  shows "timer < nextTimer (run P stringify evs s)"
proof -
  have "timers_issued s" using assms(1,2) by (simp add: timers_issued_iff)
  then have "timers_issued (run P stringify evs s)" by (rule run_issued)
  then show ?thesis using assms(3) by (simp add: timers_issued_iff)
qed

end
